theory Spec2Isabelle
  imports Main "HOL-Library.Sublist" "HOL-Library.Multiset"
begin

section \<open>Python values used by the processor\<close>

text \<open>
  The development embeds the slide filter, the slide classifier, the extraction router and
  the result merger of \<^verbatim>\<open>samples/medium-complexity.py\<close> (class
  \<^verbatim>\<open>PowerPointProcessor\<close>).

  Strings are \<open>string\<close>: a character is a code point below 256 (the Latin-1 range),
  and \<open>length\<close> is Python's \<open>len\<close>. Integers are \<open>int\<close>. An exception is a
  value carrying its class name and its message, which is what
  \<^verbatim>\<open>type(e).__name__\<close> and \<^verbatim>\<open>str(e)\<close> read. The exceptions raised by
  the reads and the calls of the model are instances of Python's class Exception, which is
  what every handler of the source catches (\<^verbatim>\<open>except Exception\<close>). An exception
  of another class (KeyboardInterrupt, SystemExit) passes all these handlers: it is the
  \<open>interrupt\<close> of the services below, and it ends
  \<^verbatim>\<open>process_powerpoint_file\<close> with that exception.
\<close>

datatype exn = Exn (exn_type: string) (exn_msg: string)

subsection \<open>str methods\<close>

text \<open>The characters below 256 that \<^verbatim>\<open>str.strip()\<close> removes: tab, line feed,
  vertical tab, form feed, carriage return, the four separators 0x1C to 0x1F, the space,
  the next-line character 0x85 and the no-break space 0xA0.\<close>

definition whitespace :: "char list" where
  "whitespace = [CHR 0x09, CHR 0x0A, CHR 0x0B, CHR 0x0C, CHR 0x0D,
                 CHR 0x1C, CHR 0x1D, CHR 0x1E, CHR 0x1F, CHR 0x20, CHR 0x85, CHR 0xA0]"

definition isspace :: "char \<Rightarrow> bool" where
  "isspace c = List.member whitespace c"

definition strip :: "string \<Rightarrow> string" where
  "strip s = rev (dropWhile isspace (rev (dropWhile isspace s)))"

text \<open>\<^verbatim>\<open>str.lower()\<close> on a character below 256: the letters A to Z and the
  capital letters 0xC0 to 0xDE (all but the multiplication sign 0xD7) move up by 32.\<close>

definition lower_char :: "char \<Rightarrow> char" where
  "lower_char c =
     (let n = (of_char c :: nat)
      in if (65 \<le> n \<and> n \<le> 90) \<or> (192 \<le> n \<and> n \<le> 222 \<and> n \<noteq> 215)
         then char_of (n + 32) else c)"

definition lower :: "string \<Rightarrow> string" where
  "lower s = map lower_char s"

text \<open>\<^verbatim>\<open>s.startswith(p)\<close>.\<close>

fun startswith :: "string \<Rightarrow> string \<Rightarrow> bool" where
  "startswith s [] = True"
| "startswith [] (p # ps) = False"
| "startswith (c # s) (p # ps) = (c = p \<and> startswith s ps)"

text \<open>\<^verbatim>\<open>p in s\<close> on strings: \<open>p\<close> occurs in \<open>s\<close> as a contiguous run.\<close>

fun str_in :: "string \<Rightarrow> string \<Rightarrow> bool" where
  "str_in p [] = (p = [])"
| "str_in p (c # s) = (startswith (c # s) p \<or> str_in p s)"

text \<open>\<^verbatim>\<open>sep.join(parts)\<close>.\<close>

fun join :: "string \<Rightarrow> string list \<Rightarrow> string" where
  "join sep [] = []"
| "join sep [x] = x"
| "join sep (x # y # ys) = x @ sep @ join sep (y # ys)"

text \<open>\<^verbatim>\<open>s.split(sep)\<close> for a non-empty separator: the pieces between the
  occurrences of \<open>sep\<close>, found from the left and not overlapping. The second argument
  holds the current piece, reversed. (Python raises ValueError on an empty separator; the
  source only splits at a line feed and at two line feeds.)\<close>

function split_from :: "string \<Rightarrow> string \<Rightarrow> string \<Rightarrow> string list" where
  "split_from sep cur s =
     (if s = [] then [rev cur]
      else if sep \<noteq> [] \<and> startswith s sep then rev cur # split_from sep [] (drop (length sep) s)
      else split_from sep (hd s # cur) (tl s))"
  by pat_completeness auto
termination
  by (relation "measure (\<lambda>(sep, cur, s). length s)") auto

definition split :: "string \<Rightarrow> string \<Rightarrow> string list" where
  "split s sep = split_from sep [] s"

text \<open>\<^verbatim>\<open>str(n)\<close> for an integer, in decimal.\<close>

definition digit :: "nat \<Rightarrow> char" where
  "digit d = ''0123456789'' ! d"

function str_nat :: "nat \<Rightarrow> string" where
  "str_nat n = (if n < 10 then [digit n] else str_nat (n div 10) @ [digit (n mod 10)])"
  by pat_completeness auto
termination
  by (relation "measure id") auto

definition str_int :: "int \<Rightarrow> string" where
  "str_int i = (if i < 0 then CHR ''-'' # str_nat (nat (- i)) else str_nat (nat i))"

text \<open>\<^verbatim>\<open>re.sub('[...]+', '', s)\<close> with a character class: every character
  of the class is deleted.\<close>

definition re_sub_class :: "char list \<Rightarrow> string \<Rightarrow> string" where
  "re_sub_class cls s = filter (\<lambda>c. \<not> List.member cls c) s"

subsection \<open>The parsed presentation\<close>

text \<open>
  A shape as python-pptx hands it to the processor, with the attributes the processor
  reads. An attribute that a shape may lack (\<^verbatim>\<open>hasattr\<close> in the source) is an
  option:
  \<^item> \<open>name\<close>: the shape's name;
  \<^item> \<open>shape_type\<close>: the outcome of reading \<^verbatim>\<open>shape.shape_type\<close>, the same
    at every read: the numeric MSO_SHAPE_TYPE code (1 auto shape, 9 line, 13 picture,
    17 text box, 19 table; the source writes the first three as numbers and the last
    two also by their names, \<open>MSO_TEXT_BOX\<close> and \<open>MSO_TABLE\<close>), or the exception the
    read raises (python-pptx raises NotImplementedError for a shape of a class that has
    no type);
  \<^item> \<open>text_attr\<close>: the \<^verbatim>\<open>text\<close> attribute, which graphic frames (tables), pictures
    and groups do not have;
  \<^item> \<open>placeholder_format\<close>: whether reading \<^verbatim>\<open>placeholder_format\<close> yields a
    value other than None (on other shapes the read raises and the source swallows it);
  \<^item> \<open>shapes\<close>: the member shapes of a group, each given by its own text attribute;
  \<^item> \<open>table\<close>: the rows of a table, each a list of cell texts.
  A slide is the list of its shapes, a presentation the list of its slides.
\<close>

record shape =
  name :: string
  shape_type :: "exn + int"
  text_attr :: "string option"
  placeholder_format :: bool
  shapes :: "string option list option"
  table :: "string list list option"

type_synonym slide = "shape list"

definition MSO_TEXT_BOX :: int where "MSO_TEXT_BOX = 17"
definition MSO_TABLE :: int where "MSO_TABLE = 19"

text \<open>
  \<^verbatim>\<open>Presentation(str(file_path))\<close> either raises or yields the slides. The file is
  not changed while it is processed, so every call on one path has the same outcome: the
  functions below take that outcome as their argument \<open>prs\<close>.

  \<^verbatim>\<open>prs.slides[i]\<close> follows Python's indexing: a negative index counts from the
  end, an index out of range raises IndexError.
\<close>

type_synonym presentation = "exn + slide list"

definition IndexError :: exn where
  "IndexError = Exn ''IndexError'' ''slide index out of range''"

definition slides_getitem :: "slide list \<Rightarrow> int \<Rightarrow> exn + slide" where
  "slides_getitem sl i =
     (let n = int (length sl); j = (if i < 0 then n + i else i)
      in if 0 \<le> j \<and> j < n then Inr (sl ! nat j) else Inl IndexError)"

text \<open>\<^verbatim>\<open>hasattr(shape, "text") and shape.text.strip()\<close>: the stripped text
  when the shape has a text attribute whose stripped value is not empty, else nothing.\<close>

definition text_of :: "string option \<Rightarrow> string option" where
  "text_of t = (case t of None \<Rightarrow> None | Some s \<Rightarrow> if strip s \<noteq> [] then Some (strip s) else None)"

section \<open>Slide filter\<close>

definition skip_patterns :: "string list" where
  "skip_patterns = [''thank you'', ''thanks'', ''appendix'', ''questions'', ''q&a'',
                    ''contact us'', ''contact information'', ''contact:'']"

text \<open>The inner loop over \<^verbatim>\<open>slide.shapes\<close> that builds \<^verbatim>\<open>slide_text\<close>.\<close>

fun filter_slide_text :: "slide \<Rightarrow> string \<Rightarrow> string" where
  "filter_slide_text [] slide_text = slide_text"
| "filter_slide_text (sh # rest) slide_text =
     (case text_of (text_attr sh) of
        Some t \<Rightarrow> filter_slide_text rest (slide_text @ '' '' @ lower t)
      | None \<Rightarrow> filter_slide_text rest slide_text)"

text \<open>The loop over the patterns, which stops at the first match.\<close>

fun should_skip :: "string list \<Rightarrow> string \<Rightarrow> bool" where
  "should_skip [] slide_text = False"
| "should_skip (pattern # rest) slide_text =
     (if str_in pattern slide_text then True else should_skip rest slide_text)"

text \<open>The loop over \<^verbatim>\<open>enumerate(prs.slides, 1)\<close>, with the two result lists.\<close>

fun filter_loop :: "int \<Rightarrow> slide list \<Rightarrow> int list \<times> int list \<Rightarrow> int list \<times> int list" where
  "filter_loop slide_idx [] (valid_slides, removed_slides) = (valid_slides, removed_slides)"
| "filter_loop slide_idx (sl # rest) (valid_slides, removed_slides) =
     (if should_skip skip_patterns (filter_slide_text sl [])
      then filter_loop (slide_idx + 1) rest (valid_slides, removed_slides @ [slide_idx])
      else filter_loop (slide_idx + 1) rest (valid_slides @ [slide_idx], removed_slides))"

text \<open>
  \<^verbatim>\<open>_filter_useless_slides\<close>. The handler parses the file again and keeps every
  slide; when that second parse raises, the exception leaves the function.
\<close>

definition filter_useless_slides_try :: "presentation \<Rightarrow> exn + int list \<times> int list" where
  "filter_useless_slides_try prs =
     (case prs of
        Inl e \<Rightarrow> Inl e
      | Inr sl \<Rightarrow> Inr (filter_loop 1 sl ([], [])))"

definition filter_useless_slides :: "presentation \<Rightarrow> exn + int list \<times> int list" where
  "filter_useless_slides prs =
     (case filter_useless_slides_try prs of
        Inr r \<Rightarrow> Inr r
      | Inl e \<Rightarrow>
          (case prs of
             Inl e' \<Rightarrow> Inl e'
           | Inr sl \<Rightarrow> Inr (map int [1..<length sl + 1], [])))"

section \<open>Slide classifier\<close>

subsection \<open>Step A: the complexity test\<close>

text \<open>The placeholder test made on each shape of the slide.\<close>

definition is_placeholder :: "shape \<Rightarrow> bool" where
  "is_placeholder sh =
     (let shape_name = lower (name sh);
          by_name = (str_in ''footer'' shape_name \<or> str_in ''slide number'' shape_name
                     \<or> str_in ''placeholder'' shape_name)
      in if placeholder_format sh then True else by_name)"

text \<open>The first loop: shapes go to \<^verbatim>\<open>content_objects\<close> or to
  \<^verbatim>\<open>placeholder_objects\<close>.\<close>

fun partition_shapes :: "slide \<Rightarrow> shape list \<times> shape list \<Rightarrow> shape list \<times> shape list" where
  "partition_shapes [] (content_objects, placeholder_objects) =
     (content_objects, placeholder_objects)"
| "partition_shapes (sh # rest) (content_objects, placeholder_objects) =
     (if is_placeholder sh
      then partition_shapes rest (content_objects, placeholder_objects @ [sh])
      else partition_shapes rest (content_objects @ [sh], placeholder_objects))"

text \<open>The list \<^verbatim>\<open>[shape.shape_type for shape in ...]\<close>: the first read that raises
  ends it.\<close>

fun read_shape_types :: "shape list \<Rightarrow> exn + int list" where
  "read_shape_types [] = Inr []"
| "read_shape_types (sh # rest) =
     (case shape_type sh of
        Inl e \<Rightarrow> Inl e
      | Inr ty \<Rightarrow>
          (case read_shape_types rest of
             Inl e \<Rightarrow> Inl e
           | Inr types \<Rightarrow> Inr (ty # types)))"

text \<open>The second loop, which reads the type of every content shape again and collects
  \<^verbatim>\<open>visual_graphics\<close>.\<close>

fun collect_visual_graphics :: "shape list \<Rightarrow> shape list \<Rightarrow> exn + shape list" where
  "collect_visual_graphics [] visual_graphics = Inr visual_graphics"
| "collect_visual_graphics (sh # rest) visual_graphics =
     (case shape_type sh of
        Inl e \<Rightarrow> Inl e
      | Inr ty \<Rightarrow>
          (let shape_name = lower (name sh) in
           if ty = 13 then collect_visual_graphics rest (visual_graphics @ [sh])
           else if ty = 9 then collect_visual_graphics rest (visual_graphics @ [sh])
           else if ty = 1 then
             (let has_text = text_of (text_attr sh);
                  is_simple_rect = (str_in ''rectangle'' shape_name \<or> str_in ''rect'' shape_name)
              in if \<not> (is_simple_rect
                        \<and> (case has_text of None \<Rightarrow> False | Some t \<Rightarrow> length t > 10))
                 then collect_visual_graphics rest (visual_graphics @ [sh])
                 else collect_visual_graphics rest visual_graphics)
           else collect_visual_graphics rest visual_graphics))"

text \<open>The body of \<^verbatim>\<open>_is_complex_slide\<close>, inside its \<^verbatim>\<open>try\<close>.\<close>

definition is_complex_slide_try :: "slide \<Rightarrow> exn + bool" where
  "is_complex_slide_try sl =
     (let (content_objects, placeholder_objects) = partition_shapes sl ([], []) in
      case read_shape_types content_objects of
        Inl e \<Rightarrow> Inl e
      | Inr content_obj_types \<Rightarrow>
          (let num_content_objects = length content_obj_types;
               num_tables = count_list content_obj_types 19;
               num_pictures = count_list content_obj_types 13
           in case collect_visual_graphics content_objects [] of
                Inl e \<Rightarrow> Inl e
              | Inr visual_graphics \<Rightarrow>
                  (let has_connectors =
                         list_ex (\<lambda>sh. str_in ''connector'' (lower (name sh))) content_objects;
                       has_groups = list_ex (\<lambda>sh. shapes sh \<noteq> None) content_objects
                   in Inr (num_content_objects > 6 \<or> length visual_graphics > 2
                           \<or> has_connectors \<or> has_groups \<or> num_pictures > 0
                           \<or> (num_tables > 0 \<and> length visual_graphics > 0)))))"

text \<open>\<^verbatim>\<open>_is_complex_slide\<close>: when the analysis raises, the handler answers that
  the slide is not complex.\<close>

definition is_complex_slide :: "slide \<Rightarrow> bool" where
  "is_complex_slide sl =
     (case is_complex_slide_try sl of
        Inr is_complex \<Rightarrow> is_complex
      | Inl e \<Rightarrow> False)"

subsection \<open>Step B and the three lists\<close>

text \<open>The loop over the shapes that sets \<^verbatim>\<open>has_table\<close> and
  \<^verbatim>\<open>has_textbox\<close>; a read of a shape type that raises ends it.\<close>

fun table_textbox_flags :: "slide \<Rightarrow> bool \<times> bool \<Rightarrow> exn + bool \<times> bool" where
  "table_textbox_flags [] (has_table, has_textbox) = Inr (has_table, has_textbox)"
| "table_textbox_flags (sh # rest) (has_table, has_textbox) =
     (case shape_type sh of
        Inl e \<Rightarrow> Inl e
      | Inr ty \<Rightarrow>
          table_textbox_flags rest
            (if ty = MSO_TABLE then True else has_table,
             if ty = MSO_TEXT_BOX \<and> text_of (text_attr sh) \<noteq> None then True else has_textbox))"

text \<open>The main loop of \<^verbatim>\<open>_separate_slides_by_complexity\<close> over
  \<^verbatim>\<open>valid_slides\<close>; an index out of range, or a read of a shape type that raises,
  ends it with the exception.\<close>

fun separate_loop ::
  "slide list \<Rightarrow> int list \<Rightarrow> int list \<times> int list \<times> int list \<Rightarrow> exn + int list \<times> int list \<times> int list"
where
  "separate_loop sl [] (table_slides, complex_slides, simple_slides) =
     Inr (table_slides, complex_slides, simple_slides)"
| "separate_loop sl (slide_idx # rest) (table_slides, complex_slides, simple_slides) =
     (case slides_getitem sl (slide_idx - 1) of
        Inl e \<Rightarrow> Inl e
      | Inr s \<Rightarrow>
          if is_complex_slide s
          then separate_loop sl rest (table_slides, complex_slides @ [slide_idx], simple_slides)
          else
            (case table_textbox_flags s (False, False) of
               Inl e \<Rightarrow> Inl e
             | Inr (has_table, has_textbox) \<Rightarrow>
                 if has_table \<and> has_textbox
                 then separate_loop sl rest (table_slides, complex_slides @ [slide_idx], simple_slides)
                 else if has_table
                 then separate_loop sl rest (table_slides @ [slide_idx], complex_slides, simple_slides)
                 else separate_loop sl rest (table_slides, complex_slides, simple_slides @ [slide_idx])))"

text \<open>The loop over the shapes in \<^verbatim>\<open>_separate_table_slides\<close>, which stops at the
  first table; a read of a shape type that raises ends it.\<close>

fun slide_has_table :: "slide \<Rightarrow> exn + bool" where
  "slide_has_table [] = Inr False"
| "slide_has_table (sh # rest) =
     (case shape_type sh of
        Inl e \<Rightarrow> Inl e
      | Inr ty \<Rightarrow> if ty = MSO_TABLE then Inr True else slide_has_table rest)"

fun separate_table_loop ::
  "slide list \<Rightarrow> int list \<Rightarrow> int list \<times> int list \<Rightarrow> exn + int list \<times> int list"
where
  "separate_table_loop sl [] (table_slides, regular_slides) = Inr (table_slides, regular_slides)"
| "separate_table_loop sl (slide_idx # rest) (table_slides, regular_slides) =
     (case slides_getitem sl (slide_idx - 1) of
        Inl e \<Rightarrow> Inl e
      | Inr s \<Rightarrow>
          (case slide_has_table s of
             Inl e \<Rightarrow> Inl e
           | Inr has_table \<Rightarrow>
               if has_table
               then separate_table_loop sl rest (table_slides @ [slide_idx], regular_slides)
               else separate_table_loop sl rest (table_slides, regular_slides @ [slide_idx])))"

text \<open>\<^verbatim>\<open>_separate_table_slides\<close>: on any exception every slide is regular.\<close>

definition separate_table_slides :: "presentation \<Rightarrow> int list \<Rightarrow> int list \<times> int list" where
  "separate_table_slides prs valid_slides =
     (case (case prs of Inl e \<Rightarrow> Inl e | Inr sl \<Rightarrow> separate_table_loop sl valid_slides ([], [])) of
        Inr r \<Rightarrow> r
      | Inl e \<Rightarrow> ([], valid_slides))"

text \<open>\<^verbatim>\<open>_separate_slides_by_complexity\<close>: on any exception the result is that of
  \<^verbatim>\<open>_separate_table_slides\<close>, with no complex slide.\<close>

definition separate_slides_by_complexity ::
  "presentation \<Rightarrow> int list \<Rightarrow> int list \<times> int list \<times> int list"
where
  "separate_slides_by_complexity prs valid_slides =
     (case (case prs of Inl e \<Rightarrow> Inl e | Inr sl \<Rightarrow> separate_loop sl valid_slides ([], [], [])) of
        Inr r \<Rightarrow> r
      | Inl e \<Rightarrow>
          (let (table_slides, regular_slides) = separate_table_slides prs valid_slides
           in (table_slides, [], regular_slides)))"

section \<open>Extraction router\<close>

subsection \<open>Text of a slide\<close>

definition NL :: string where
  "NL = [CHR 0x0A]"

text \<open>The loop over the cells of a row in \<^verbatim>\<open>_extract_text_from_table\<close>.\<close>

fun row_text_loop :: "string list \<Rightarrow> string list \<Rightarrow> string list" where
  "row_text_loop [] row_text_parts = row_text_parts"
| "row_text_loop (cell # rest) row_text_parts =
     (let cell_text = (if cell \<noteq> [] then strip cell else [])
      in if cell_text \<noteq> [] then row_text_loop rest (row_text_parts @ [cell_text])
         else row_text_loop rest row_text_parts)"

fun table_text_loop :: "string list list \<Rightarrow> string list \<Rightarrow> string list" where
  "table_text_loop [] table_text_parts = table_text_parts"
| "table_text_loop (row # rest) table_text_parts =
     (let row_text_parts = row_text_loop row []
      in if row_text_parts \<noteq> []
         then table_text_loop rest (table_text_parts @ [join '' | '' row_text_parts])
         else table_text_loop rest table_text_parts)"

text \<open>\<^verbatim>\<open>_extract_text_from_table\<close>: a shape without a table makes the read of
  \<^verbatim>\<open>table_shape.table\<close> fail, and the handler returns the empty string.\<close>

definition extract_text_from_table :: "shape \<Rightarrow> string" where
  "extract_text_from_table table_shape =
     (case table table_shape of
        None \<Rightarrow> []
      | Some rows \<Rightarrow>
          (let table_text_parts = table_text_loop rows []
           in if table_text_parts \<noteq> [] then join NL table_text_parts else []))"

text \<open>The loop over the members of a group in \<^verbatim>\<open>_extract_text_from_slide\<close>.\<close>

fun sub_shapes_loop :: "string option list \<Rightarrow> string list \<Rightarrow> string list" where
  "sub_shapes_loop [] slide_text_parts = slide_text_parts"
| "sub_shapes_loop (sub_shape # rest) slide_text_parts =
     (case text_of sub_shape of
        Some t \<Rightarrow> sub_shapes_loop rest (slide_text_parts @ [t])
      | None \<Rightarrow> sub_shapes_loop rest slide_text_parts)"

text \<open>The loop over the shapes in \<^verbatim>\<open>_extract_text_from_slide\<close>. The text of the
  shape is added first; when the read of the shape type then raises, the handler inside the
  loop goes on with the next shape.\<close>

fun extract_text_loop :: "slide \<Rightarrow> string list \<Rightarrow> string list" where
  "extract_text_loop [] slide_text_parts = slide_text_parts"
| "extract_text_loop (sh # rest) slide_text_parts =
     (let parts1 = (case text_of (text_attr sh) of
                      Some t \<Rightarrow> slide_text_parts @ [t]
                    | None \<Rightarrow> slide_text_parts)
      in case shape_type sh of
           Inl e \<Rightarrow> extract_text_loop rest parts1
         | Inr ty \<Rightarrow>
             (let parts2 = (if ty = MSO_TABLE
                            then (let table_text = extract_text_from_table sh
                                  in if table_text \<noteq> [] then parts1 @ [table_text] else parts1)
                            else parts1);
                  parts3 = (case shapes sh of
                              Some members \<Rightarrow> sub_shapes_loop members parts2
                            | None \<Rightarrow> parts2)
              in extract_text_loop rest parts3))"

definition extract_text_from_slide :: "slide \<Rightarrow> string" where
  "extract_text_from_slide sl = join NL (extract_text_loop sl [])"

subsection \<open>The capabilities outside the processor\<close>

text \<open>
  What the processor asks of its collaborators, as the outcomes of the calls:
  \<^item> \<open>mkdir_table_slides\<close>, \<open>mkdir_csv_for_pipeline\<close>, \<open>new_slide_exporter\<close>,
    \<open>log_conversion_capabilities\<close>: the four steps of the constructor of the processor
    (two directories made, the exporter made, the capabilities logged), each an exception
    or nothing;
  \<^item> \<open>mkdir_slide_images\<close>: creating the directory \<^verbatim>\<open>slide_images\<close> (an exception,
    or nothing);
  \<^item> \<open>export_slide_as_image\<close>: the slide exporter of \<^verbatim>\<open>powerpoint_utils\<close>, which
    runs the chain of rendering methods for a slide index and returns an image path or
    None, or raises;
  \<^item> \<open>path_exists\<close>: \<^verbatim>\<open>Path(image_path).exists()\<close>;
  \<^item> \<open>call_gemini\<close>: the description service, called with the image path, the slide
    index, the source file name and the slide text (from which the source builds the
    prompt); it returns the text of the response or raises;
  \<^item> \<open>now\<close>: \<^verbatim>\<open>datetime.now().isoformat()\<close>;
  \<^item> \<open>write_raw_text\<close>, \<open>write_final_markdown\<close>: writing the two markdown files (an
    exception, or nothing);
  \<^item> \<open>interrupt\<close>: an exception that is no instance of Exception, raised while
    \<^verbatim>\<open>process_powerpoint_file\<close> runs, or nothing.
\<close>

record services =
  mkdir_table_slides :: "exn option"
  mkdir_csv_for_pipeline :: "exn option"
  new_slide_exporter :: "exn option"
  log_conversion_capabilities :: "exn option"
  mkdir_slide_images :: "exn option"
  export_slide_as_image :: "int \<Rightarrow> exn + string option"
  path_exists :: "string \<Rightarrow> bool"
  call_gemini :: "string \<Rightarrow> int \<Rightarrow> string \<Rightarrow> string \<Rightarrow> exn + string"
  now :: string
  write_raw_text :: "exn option"
  write_final_markdown :: "exn option"
  interrupt :: "exn option"

subsection \<open>Image-based extraction of one slide\<close>

text \<open>\<^verbatim>\<open>_process_slide_image_with_gemini\<close>.\<close>

definition process_slide_image_with_gemini ::
  "services \<Rightarrow> string \<Rightarrow> int \<Rightarrow> string \<Rightarrow> string \<Rightarrow> string"
where
  "process_slide_image_with_gemini sv image_path slide_idx source_file slide_text =
     (case call_gemini sv image_path slide_idx source_file slide_text of
        Inl e \<Rightarrow> ''[Error processing slide '' @ str_int slide_idx @ '' with Gemini: '' @ exn_msg e @ '']''
      | Inr response \<Rightarrow>
          (let description = (if response \<noteq> [] then strip response else [])
           in if description \<noteq> [] then description
              else ''[No content extracted from slide '' @ str_int slide_idx @ '']''))"

text \<open>\<^verbatim>\<open>_convert_slide_to_image_and_process\<close>.\<close>

definition convert_slide_to_image_and_process ::
  "services \<Rightarrow> slide \<Rightarrow> int \<Rightarrow> string \<Rightarrow> string"
where
  "convert_slide_to_image_and_process sv sl slide_idx source_file =
     (let slide_text = extract_text_from_slide sl in
      case mkdir_slide_images sv of
        Some e \<Rightarrow> ''[Error processing slide '' @ str_int slide_idx @ '': '' @ exn_msg e @ '']''
      | None \<Rightarrow>
          (case export_slide_as_image sv slide_idx of
             Inl e \<Rightarrow> ''[Error processing slide '' @ str_int slide_idx @ '': '' @ exn_msg e @ '']''
           | Inr image_path \<Rightarrow>
               if (case image_path of None \<Rightarrow> False | Some p \<Rightarrow> p \<noteq> [] \<and> path_exists sv p)
               then process_slide_image_with_gemini sv (the image_path) slide_idx source_file slide_text
               else if strip slide_text \<noteq> []
               then ''**Slide '' @ str_int slide_idx @ '' Content (text-only fallback):**'' @ NL
                    @ slide_text @ NL @ NL
                    @ ''*Note: Image processing failed, using text extraction only*''
               else ''[Slide '' @ str_int slide_idx
                    @ '': Image processing failed and no text content available]''))"

subsection \<open>The three strategies\<close>

text \<open>A Python dict with integer keys, in insertion order: \<^verbatim>\<open>d[k] = v\<close> replaces the
  value of a key that is present and appends a new key.\<close>

fun dict_set :: "(int \<times> 'v) list \<Rightarrow> int \<Rightarrow> 'v \<Rightarrow> (int \<times> 'v) list" where
  "dict_set [] k v = [(k, v)]"
| "dict_set ((k', v') # d) k v = (if k' = k then (k, v) # d else (k', v') # dict_set d k v)"

record table_info =
  slide_number :: int
  description :: string
  extracted_text :: string

fun process_table_loop ::
  "services \<Rightarrow> slide list \<Rightarrow> string \<Rightarrow> int list \<Rightarrow> (int \<times> table_info) list
   \<Rightarrow> exn + (int \<times> table_info) list"
where
  "process_table_loop sv sl source_file [] processed_tables = Inr processed_tables"
| "process_table_loop sv sl source_file (slide_idx # rest) processed_tables =
     (case slides_getitem sl (slide_idx - 1) of
        Inl e \<Rightarrow> Inl e
      | Inr s \<Rightarrow>
          (let slide_text = extract_text_from_slide s;
               descr = convert_slide_to_image_and_process sv s slide_idx source_file
           in process_table_loop sv sl source_file rest
                (dict_set processed_tables slide_idx
                   \<lparr>slide_number = slide_idx, description = descr, extracted_text = slide_text\<rparr>)))"

text \<open>\<^verbatim>\<open>_process_table_slides\<close>: any exception gives the empty dict.\<close>

definition process_table_slides ::
  "services \<Rightarrow> presentation \<Rightarrow> string \<Rightarrow> int list \<Rightarrow> (int \<times> table_info) list"
where
  "process_table_slides sv prs source_file table_slides =
     (if table_slides = [] then []
      else case (case prs of
                   Inl e \<Rightarrow> Inl e
                 | Inr sl \<Rightarrow> process_table_loop sv sl source_file table_slides []) of
             Inr processed_tables \<Rightarrow> processed_tables
           | Inl e \<Rightarrow> [])"

text \<open>The loop of \<^verbatim>\<open>_process_complex_slides_with_gemini\<close>. It first reads the type
  of every shape of the slide, for its log; an index out of range or a read that raises
  ends the loop with the exception.\<close>

fun process_complex_loop ::
  "services \<Rightarrow> slide list \<Rightarrow> string \<Rightarrow> int list \<Rightarrow> (int \<times> string) list
   \<Rightarrow> exn + (int \<times> string) list"
where
  "process_complex_loop sv sl source_file [] complex_slide_descriptions =
     Inr complex_slide_descriptions"
| "process_complex_loop sv sl source_file (slide_idx # rest) complex_slide_descriptions =
     (case slides_getitem sl (slide_idx - 1) of
        Inl e \<Rightarrow> Inl e
      | Inr s \<Rightarrow>
          (case read_shape_types s of
             Inl e \<Rightarrow> Inl e
           | Inr obj_types \<Rightarrow>
               (let slide_description = convert_slide_to_image_and_process sv s slide_idx source_file;
                    metadata = source_file @ '':slide-'' @ str_int slide_idx;
                    formatted_description = ''## '' @ metadata @ NL @ NL @ slide_description
                in process_complex_loop sv sl source_file rest
                     (dict_set complex_slide_descriptions slide_idx formatted_description))))"

text \<open>\<^verbatim>\<open>_process_complex_slides_with_gemini\<close>: any exception gives the empty dict.\<close>

definition process_complex_slides_with_gemini ::
  "services \<Rightarrow> presentation \<Rightarrow> string \<Rightarrow> int list \<Rightarrow> (int \<times> string) list"
where
  "process_complex_slides_with_gemini sv prs source_file complex_slides =
     (if complex_slides = [] then []
      else case (case prs of
                   Inl e \<Rightarrow> Inl e
                 | Inr sl \<Rightarrow> process_complex_loop sv sl source_file complex_slides []) of
             Inr complex_slide_descriptions \<Rightarrow> complex_slide_descriptions
           | Inl e \<Rightarrow> [])"

text \<open>The loop over the shapes in \<^verbatim>\<open>_extract_fallback_text_from_slides\<close>.\<close>

fun fallback_shape_loop :: "slide \<Rightarrow> string list \<Rightarrow> string list" where
  "fallback_shape_loop [] slide_text = slide_text"
| "fallback_shape_loop (sh # rest) slide_text =
     (case text_of (text_attr sh) of
        Some t \<Rightarrow> fallback_shape_loop rest (slide_text @ [t])
      | None \<Rightarrow> fallback_shape_loop rest slide_text)"

text \<open>The loop over \<^verbatim>\<open>simple_slides\<close>: a slide whose index is out of range is
  passed over.\<close>

fun fallback_slides_loop :: "slide list \<Rightarrow> string \<Rightarrow> int list \<Rightarrow> string list \<Rightarrow> string list" where
  "fallback_slides_loop sl source_file [] fallback_content = fallback_content"
| "fallback_slides_loop sl source_file (slide_idx # rest) fallback_content =
     (case slides_getitem sl (slide_idx - 1) of
        Inl e \<Rightarrow> fallback_slides_loop sl source_file rest fallback_content
      | Inr s \<Rightarrow>
          (let slide_text = fallback_shape_loop s []
           in if slide_text \<noteq> []
              then fallback_slides_loop sl source_file rest
                     (fallback_content
                      @ [''## '' @ source_file @ '':slide-'' @ str_int slide_idx @ NL @ NL
                         @ join (NL @ NL) slide_text])
              else fallback_slides_loop sl source_file rest fallback_content))"

text \<open>\<^verbatim>\<open>_extract_fallback_text_from_slides\<close>; \<open>source_file\<close> is the name of the
  file, \<^verbatim>\<open>Path(source_file).name\<close>.\<close>

definition extract_fallback_text_from_slides :: "presentation \<Rightarrow> string \<Rightarrow> int list \<Rightarrow> string" where
  "extract_fallback_text_from_slides prs source_file simple_slides =
     (case prs of
        Inl e \<Rightarrow> []
      | Inr sl \<Rightarrow> join (NL @ NL) (fallback_slides_loop sl source_file simple_slides []))"

text \<open>\<^verbatim>\<open>_process_simple_slides_with_text_extraction\<close>.\<close>

definition process_simple_slides_with_text_extraction ::
  "presentation \<Rightarrow> string \<Rightarrow> int list \<Rightarrow> string"
where
  "process_simple_slides_with_text_extraction prs source_file simple_slides =
     (if simple_slides = [] then []
      else (let extracted_content = extract_fallback_text_from_slides prs source_file simple_slides
            in if extracted_content \<noteq> [] then extracted_content else []))"

section \<open>Result merger\<close>

record entry =
  source :: string
  title :: string
  content :: string
  last_updated_date :: string

text \<open>The loop over the lines in \<^verbatim>\<open>_extract_title_from_section\<close>: the first line
  that gives a title ends it.\<close>

fun title_loop :: "string list \<Rightarrow> string option" where
  "title_loop [] = None"
| "title_loop (ln # rest) =
     (let line = strip ln in
      if line \<noteq> [] \<and> \<not> startswith line ''!'' \<and> length line < 100
      then (let t = strip (re_sub_class ''#*-'' line)
            in if t \<noteq> [] then Some (take 80 t) else title_loop rest)
      else title_loop rest)"

text \<open>\<^verbatim>\<open>_extract_title_from_section\<close>. Its handler (the title
  \<^verbatim>\<open>"Content Section"\<close>) is for an argument that is no string.\<close>

definition extract_title_from_section :: "string \<Rightarrow> string" where
  "extract_title_from_section section_text =
     (case title_loop (split section_text NL) of
        Some t \<Rightarrow> t
      | None \<Rightarrow>
          (let clean_text = strip (re_sub_class ''#*-!'' section_text)
           in if length clean_text > 50 then take 50 clean_text @ ''...'' else clean_text))"

text \<open>The loop over \<^verbatim>\<open>enumerate(pages)\<close> in
  \<^verbatim>\<open>_extract_sections_from_markdown\<close>.\<close>

fun sections_loop :: "services \<Rightarrow> string \<Rightarrow> int \<Rightarrow> string list \<Rightarrow> entry list \<Rightarrow> entry list" where
  "sections_loop sv source_file i [] sections = sections"
| "sections_loop sv source_file i (page # rest) sections =
     (let section_text = strip page in
      if section_text \<noteq> [] \<and> length section_text > 50
      then sections_loop sv source_file (i + 1) rest
             (sections @ [\<lparr>source = source_file @ '':slide-'' @ str_int (i + 1),
                            title = extract_title_from_section section_text,
                            content = section_text,
                            last_updated_date = now sv\<rparr>])
      else sections_loop sv source_file (i + 1) rest sections)"

definition extract_sections_from_markdown :: "services \<Rightarrow> string \<Rightarrow> string \<Rightarrow> entry list" where
  "extract_sections_from_markdown sv markdown_content source_file =
     sections_loop sv source_file 0 (split markdown_content (NL @ NL)) []"

text \<open>The three parts of \<^verbatim>\<open>enhanced_markdown\<close> in
  \<^verbatim>\<open>_process_csvs_and_combine_results\<close>; the two loops run over the sorted keys.\<close>

fun complex_markdown_loop :: "(int \<times> string) list \<Rightarrow> int list \<Rightarrow> string \<Rightarrow> string" where
  "complex_markdown_loop complex_slide_descriptions [] enhanced_markdown = enhanced_markdown"
| "complex_markdown_loop complex_slide_descriptions (slide_idx # rest) enhanced_markdown =
     complex_markdown_loop complex_slide_descriptions rest
       (enhanced_markdown @ the (map_of complex_slide_descriptions slide_idx) @ NL @ NL)"

fun table_markdown_loop :: "(int \<times> table_info) list \<Rightarrow> string \<Rightarrow> int list \<Rightarrow> string \<Rightarrow> string" where
  "table_markdown_loop processed_tables source_file [] enhanced_markdown = enhanced_markdown"
| "table_markdown_loop processed_tables source_file (slide_idx # rest) enhanced_markdown =
     (let info = the (map_of processed_tables slide_idx)
      in table_markdown_loop processed_tables source_file rest
           (enhanced_markdown @ ''## '' @ source_file @ '':slide-'' @ str_int slide_idx @ NL @ NL
            @ description info @ NL @ NL))"

definition build_enhanced_markdown ::
  "string \<Rightarrow> (int \<times> table_info) list \<Rightarrow> string \<Rightarrow> (int \<times> string) list \<Rightarrow> string"
where
  "build_enhanced_markdown markdown_content processed_tables source_file complex_slide_descriptions =
     (let em0 = [];
          em1 = (if markdown_content \<noteq> []
                 then em0 @ ''# Simple Slides (Text Extraction)'' @ NL @ NL @ markdown_content @ NL @ NL
                 else em0);
          em2 = (if complex_slide_descriptions \<noteq> []
                 then complex_markdown_loop complex_slide_descriptions
                        (sort (map fst complex_slide_descriptions))
                        (em1 @ ''# Complex Slides (Gemini Vision Analysis)'' @ NL @ NL)
                 else em1);
          em3 = (if processed_tables \<noteq> []
                 then table_markdown_loop processed_tables source_file
                        (sort (map fst processed_tables))
                        (em2 @ ''# Table Slides (Gemini Analysis)'' @ NL @ NL)
                 else em2)
      in em3)"

text \<open>The two loops over \<^verbatim>\<open>.items()\<close> that add the records of the complex and
  the table slides.\<close>

fun complex_data_loop :: "services \<Rightarrow> string \<Rightarrow> (int \<times> string) list \<Rightarrow> entry list \<Rightarrow> entry list" where
  "complex_data_loop sv source_file [] markdown_data = markdown_data"
| "complex_data_loop sv source_file ((slide_idx, descr) # rest) markdown_data =
     complex_data_loop sv source_file rest
       (markdown_data @ [\<lparr>source = source_file @ '':slide-'' @ str_int slide_idx,
                           title = ''Complex Slide '' @ str_int slide_idx @ '' Analysis'',
                           content = descr,
                           last_updated_date = now sv\<rparr>])"

record table_result =
  tr_slide_number :: int
  tr_source :: string
  description_length :: nat
  extracted_text_length :: nat

fun table_data_loop ::
  "services \<Rightarrow> string \<Rightarrow> (int \<times> table_info) list \<Rightarrow> entry list \<times> table_result list
   \<Rightarrow> entry list \<times> table_result list"
where
  "table_data_loop sv source_file [] (markdown_data, table_processing_results) =
     (markdown_data, table_processing_results)"
| "table_data_loop sv source_file ((slide_idx, info) # rest) (markdown_data, table_processing_results) =
     table_data_loop sv source_file rest
       (markdown_data @ [\<lparr>source = source_file @ '':slide-'' @ str_int slide_idx,
                           title = ''Table Slide '' @ str_int slide_idx @ '' Analysis'',
                           content = description info,
                           last_updated_date = now sv\<rparr>],
        table_processing_results @ [\<lparr>tr_slide_number = slide_idx,
                                      tr_source = source_file @ '':slide-'' @ str_int slide_idx,
                                      description_length = length (description info),
                                      extracted_text_length = length (extracted_text info)\<rparr>])"

text \<open>
  The dictionaries the processor returns. Of the merged result the model keeps the keys
  that carry the document and the records; the keys left out are constants, file names
  and the outcome of the ingestion pipeline, which is run inside a handler of its own.
  \<open>MergeError\<close> is the dictionary of the handler of
  \<^verbatim>\<open>_process_csvs_and_combine_results\<close> (keys \<^verbatim>\<open>error\<close>, an empty
  \<^verbatim>\<open>markdown_data\<close>), \<open>Failure\<close> the dictionary of the handler of
  \<^verbatim>\<open>process_powerpoint_file\<close> (keys \<^verbatim>\<open>success\<close> = False,
  \<^verbatim>\<open>error\<close>, \<^verbatim>\<open>exception_type\<close>).
\<close>

record merged =
  source_file_name :: string
  total_markdown_entries :: nat
  total_table_slides_processed :: nat
  total_complex_slides_identified :: nat
  enhanced_markdown :: string
  markdown_data :: "entry list"
  table_processing_results :: "table_result list"

datatype result =
    Merged merged
  | MergeError string string
  | Failure string string

text \<open>\<^verbatim>\<open>_process_csvs_and_combine_results\<close>.\<close>

definition process_csvs_and_combine_results ::
  "services \<Rightarrow> string \<Rightarrow> (int \<times> table_info) list \<Rightarrow> string \<Rightarrow> (int \<times> string) list \<Rightarrow> result"
where
  "process_csvs_and_combine_results sv markdown_content processed_tables source_file
       complex_slide_descriptions =
     (let em = build_enhanced_markdown markdown_content processed_tables source_file
                 complex_slide_descriptions
      in case write_final_markdown sv of
           Some e \<Rightarrow> MergeError source_file (exn_msg e)
         | None \<Rightarrow>
             (let md0 = (if markdown_content \<noteq> []
                         then [] @ extract_sections_from_markdown sv markdown_content source_file
                         else []);
                  md1 = (if complex_slide_descriptions \<noteq> []
                         then complex_data_loop sv source_file complex_slide_descriptions md0
                         else md0);
                  (md2, results) = (if processed_tables \<noteq> []
                                    then table_data_loop sv source_file processed_tables (md1, [])
                                    else (md1, []))
              in Merged \<lparr>source_file_name = source_file,
                         total_markdown_entries = length md2,
                         total_table_slides_processed = length results,
                         total_complex_slides_identified = length complex_slide_descriptions,
                         enhanced_markdown = em,
                         markdown_data = md2,
                         table_processing_results = results\<rparr>))"

section \<open>The whole process\<close>

text \<open>
  The body of \<^verbatim>\<open>process_powerpoint_file\<close>, inside its \<^verbatim>\<open>try\<close>. The
  argument \<open>file_name\<close> is the outcome of reading \<^verbatim>\<open>file_path.name\<close> (after a
  string was made a Path): the name, or the AttributeError of an argument that is
  neither a string nor a path.
\<close>

definition process_powerpoint_file_body ::
  "services \<Rightarrow> presentation \<Rightarrow> exn + string \<Rightarrow> exn + result"
where
  "process_powerpoint_file_body sv prs file_name =
     (case file_name of
        Inl e \<Rightarrow> Inl e
      | Inr fname \<Rightarrow>
          (case filter_useless_slides prs of
             Inl e \<Rightarrow> Inl e
           | Inr (valid_slides, removed_slides) \<Rightarrow>
               (let (table_slides, complex_slides, simple_slides) =
                      separate_slides_by_complexity prs valid_slides;
                    processed_tables = process_table_slides sv prs fname table_slides;
                    complex_slide_descriptions =
                      process_complex_slides_with_gemini sv prs fname complex_slides;
                    markdown_content =
                      process_simple_slides_with_text_extraction prs fname simple_slides
                in case (if markdown_content \<noteq> [] then write_raw_text sv else None) of
                     Some e \<Rightarrow> Inl e
                   | None \<Rightarrow>
                       Inr (process_csvs_and_combine_results sv markdown_content processed_tables
                              fname complex_slide_descriptions))))"

text \<open>\<^verbatim>\<open>process_powerpoint_file\<close>: the handler turns every exception of the body
  that is an instance of Exception into the failure dictionary; an interrupt is not caught
  and leaves the function.\<close>

definition process_powerpoint_file ::
  "services \<Rightarrow> presentation \<Rightarrow> exn + string \<Rightarrow> exn + result"
where
  "process_powerpoint_file sv prs file_name =
     (case interrupt sv of
        Some e \<Rightarrow> Inl e
      | None \<Rightarrow>
          (case process_powerpoint_file_body sv prs file_name of
             Inr final_result \<Rightarrow> Inr final_result
           | Inl e \<Rightarrow> Inr (Failure (exn_msg e) (exn_type e))))"



section \<open>Notions used to state the properties\<close>

text \<open>\<^verbatim>\<open>enumerate(xs, i)\<close>: the elements with their positions, counted from \<open>i\<close>.\<close>

fun py_enumerate :: "int \<Rightarrow> 'a list \<Rightarrow> (int \<times> 'a) list" where
  "py_enumerate i [] = []"
| "py_enumerate i (x # xs) = (i, x) # py_enumerate (i + 1) xs"

text \<open>The text of a slide as the filter concatenates it: of every shape that has a text
  attribute whose stripped value is not empty, a space and that stripped value in lower
  case, in the order of the shapes.\<close>

definition folded_slide_text :: "slide \<Rightarrow> string" where
  "folded_slide_text sl =
     concat (map (\<lambda>sh. case text_attr sh of
                          None \<Rightarrow> []
                        | Some t \<Rightarrow> if strip t \<noteq> [] then '' '' @ lower (strip t) else []) sl)"

text \<open>Shapes and services for the concrete instances.\<close>

definition ex_text_box :: "string \<Rightarrow> shape" where
  "ex_text_box t = \<lparr>name = ''TextBox 1'', shape_type = Inr 17, text_attr = Some t,
                     placeholder_format = False, shapes = None, table = None\<rparr>"

definition ex_table :: "string list list \<Rightarrow> shape" where
  "ex_table rows = \<lparr>name = ''Table 1'', shape_type = Inr 19, text_attr = None,
                     placeholder_format = False, shapes = None, table = Some rows\<rparr>"

definition ex_picture :: shape where
  "ex_picture = \<lparr>name = ''Picture 2'', shape_type = Inr 13, text_attr = None,
                  placeholder_format = False, shapes = None, table = None\<rparr>"

text \<open>A shape of a class without a type: the read of its type raises.\<close>

definition ex_untyped :: shape where
  "ex_untyped = \<lparr>name = ''Ink 3'',
                  shape_type = Inl (Exn ''NotImplementedError'' ''shape_type is not implemented''),
                  text_attr = None, placeholder_format = False, shapes = None, table = None\<rparr>"

text \<open>Services whose exporter finds no renderer (it returns None), where every write
  succeeds and nothing interrupts.\<close>

definition ex_services :: services where
  "ex_services = \<lparr>mkdir_table_slides = None,
                   mkdir_csv_for_pipeline = None,
                   new_slide_exporter = None,
                   log_conversion_capabilities = None,
                   mkdir_slide_images = None,
                   export_slide_as_image = (\<lambda>i. Inr None),
                   path_exists = (\<lambda>p. False),
                   call_gemini = (\<lambda>p i s t. Inr ''description''),
                   now = ''2024-01-01T00:00:00'',
                   write_raw_text = None,
                   write_final_markdown = None,
                   interrupt = None\<rparr>"

text \<open>Services where the directory of the slide images cannot be made, and services
  whose exporter raises.\<close>

definition ex_services_no_dir :: services where
  "ex_services_no_dir =
     ex_services\<lparr>mkdir_slide_images := Some (Exn ''PermissionError'' ''Permission denied'')\<rparr>"

definition exporter_raises :: "int \<Rightarrow> exn + string option" where
  "exporter_raises i = Inl (Exn ''RuntimeError'' ''no renderer'')"

definition ex_services_exporter_raises :: services where
  "ex_services_exporter_raises = ex_services\<lparr>export_slide_as_image := exporter_raises\<rparr>"

text \<open>The category the loop body of \<^verbatim>\<open>_separate_slides_by_complexity\<close> gives one
  slide, when no read of a shape type raises in it, and the slide an index stands for.\<close>

datatype category = CatTable | CatComplex | CatSimple

definition classify_slide :: "slide \<Rightarrow> category option" where
  "classify_slide s =
     (if is_complex_slide s then Some CatComplex
      else (case table_textbox_flags s (False, False) of
              Inl e \<Rightarrow> None
            | Inr (has_table, has_textbox) \<Rightarrow>
                if has_table \<and> has_textbox then Some CatComplex
                else if has_table then Some CatTable
                else Some CatSimple))"

definition index_ok :: "slide list \<Rightarrow> int \<Rightarrow> bool" where
  "index_ok sl i = (case slides_getitem sl (i - 1) of Inr s \<Rightarrow> True | Inl e \<Rightarrow> False)"

definition slide_of :: "slide list \<Rightarrow> int \<Rightarrow> slide" where
  "slide_of sl i = (case slides_getitem sl (i - 1) of Inr s \<Rightarrow> s | Inl e \<Rightarrow> [])"

text \<open>The category of the slide an index stands for, when the loop body gives one.\<close>

definition category_at :: "slide list \<Rightarrow> int \<Rightarrow> category option" where
  "category_at sl i = (if index_ok sl i then classify_slide (slide_of sl i) else None)"

text \<open>What the loop body of \<^verbatim>\<open>_separate_table_slides\<close> finds for an index, when it
  raises nothing.\<close>

definition table_at :: "slide list \<Rightarrow> int \<Rightarrow> bool option" where
  "table_at sl i =
     (if index_ok sl i
      then (case slide_has_table (slide_of sl i) of Inl e \<Rightarrow> None | Inr b \<Rightarrow> Some b)
      else None)"

text \<open>A shape whose text attribute, stripped, is not empty; one whose stripped text is
  longer than 10 characters; and a visual graphic: a picture (type 13), a line (type 9), or
  an auto shape (type 1) other than a rectangle by name (in lower case) with such a long
  text.\<close>

definition nonempty_text :: "shape \<Rightarrow> bool" where
  "nonempty_text sh = (case text_attr sh of None \<Rightarrow> False | Some t \<Rightarrow> strip t \<noteq> [])"

definition long_text :: "shape \<Rightarrow> bool" where
  "long_text sh =
     (case text_attr sh of None \<Rightarrow> False | Some t \<Rightarrow> strip t \<noteq> [] \<and> length (strip t) > 10)"

definition visual_graphic :: "shape \<Rightarrow> bool" where
  "visual_graphic sh =
     (shape_type sh = Inr 13 \<or> shape_type sh = Inr 9
      \<or> (shape_type sh = Inr 1
          \<and> \<not> ((sublist ''rectangle'' (lower (name sh)) \<or> sublist ''rect'' (lower (name sh)))
                \<and> long_text sh)))"

text \<open>Every shape of the slide has a type that can be read.\<close>

definition types_readable :: "slide \<Rightarrow> bool" where
  "types_readable s = list_all (\<lambda>sh. \<not> isl (shape_type sh)) s"

text \<open>The title as the specification words it: of the first line that is not empty and
  shorter than 100 characters, the marker characters removed and the first 80 characters
  kept; without such a line, the first 50 characters of the content with its marker
  characters removed.\<close>

definition claimed_title :: "string \<Rightarrow> string" where
  "claimed_title section_text =
     (case List.find (\<lambda>line. line \<noteq> [] \<and> length line < 100) (split section_text NL) of
        Some line \<Rightarrow> take 80 (re_sub_class ''#*-'' line)
      | None \<Rightarrow> take 50 (re_sub_class ''#*-!'' section_text))"

text \<open>The stripped texts of the shapes of a slide that are not empty, in the order of the
  shapes.\<close>

definition slide_texts :: "slide \<Rightarrow> string list" where
  "slide_texts s =
     concat (map (\<lambda>sh. case text_attr sh of
                          None \<Rightarrow> []
                        | Some t \<Rightarrow> if strip t \<noteq> [] then [strip t] else []) s)"



text \<open>The flat record list of what the process returns (the key
  \<^verbatim>\<open>markdown_data\<close>, empty in the dictionaries of the two handlers).\<close>

fun records_of :: "exn + result \<Rightarrow> entry list" where
  "records_of (Inr (Merged m)) = markdown_data m"
| "records_of (Inr (MergeError source_file msg)) = []"
| "records_of (Inr (Failure msg exception_type)) = []"
| "records_of (Inl e) = []"

text \<open>A presentation of six slides (a table, a short text, a picture, a long text, a text
  box beside a table, a table) and the merged result of the run on it with
  \<open>ex_services\<close>.\<close>

definition ex_deck :: "slide list" where
  "ex_deck =
     [[ex_table [[''b'']]], [ex_text_box ''Hello''], [ex_picture],
      [ex_text_box ''Revenue grew in every region during the last quarter of the year''],
      [ex_text_box ''Q1'', ex_table [[''a'']]], [ex_table [[''c'']]]]"

definition ex_merged :: merged where
  "ex_merged =
     \<lparr>source_file_name = ''deck.pptx'',
      total_markdown_entries = 5,
      total_table_slides_processed = 2,
      total_complex_slides_identified = 2,
      enhanced_markdown =
        ''# Simple Slides (Text Extraction)\<newline>\<newline>## deck.pptx:slide-2\<newline>\<newline>Hello\<newline>\<newline>## deck.pptx:slide-4\<newline>\<newline>Revenue grew in every region during the last quarter of the year\<newline>\<newline># Complex Slides (Gemini Vision Analysis)\<newline>\<newline>## deck.pptx:slide-3\<newline>\<newline>[Slide 3: Image processing failed and no text content available]\<newline>\<newline>## deck.pptx:slide-5\<newline>\<newline>**Slide 5 Content (text-only fallback):**\<newline>Q1\<newline>a\<newline>\<newline>*Note: Image processing failed, using text extraction only*\<newline>\<newline># Table Slides (Gemini Analysis)\<newline>\<newline>## deck.pptx:slide-1\<newline>\<newline>**Slide 1 Content (text-only fallback):**\<newline>b\<newline>\<newline>*Note: Image processing failed, using text extraction only*\<newline>\<newline>## deck.pptx:slide-6\<newline>\<newline>**Slide 6 Content (text-only fallback):**\<newline>c\<newline>\<newline>*Note: Image processing failed, using text extraction only*\<newline>\<newline>'',
      markdown_data =
        [\<lparr>source = ''deck.pptx:slide-4'',
          title = ''Revenue grew in every region during the last quarter of the year'',
          content = ''Revenue grew in every region during the last quarter of the year'',
          last_updated_date = ''2024-01-01T00:00:00''\<rparr>,
         \<lparr>source = ''deck.pptx:slide-3'',
          title = ''Complex Slide 3 Analysis'',
          content = ''## deck.pptx:slide-3\<newline>\<newline>[Slide 3: Image processing failed and no text content available]'',
          last_updated_date = ''2024-01-01T00:00:00''\<rparr>,
         \<lparr>source = ''deck.pptx:slide-5'',
          title = ''Complex Slide 5 Analysis'',
          content = ''## deck.pptx:slide-5\<newline>\<newline>**Slide 5 Content (text-only fallback):**\<newline>Q1\<newline>a\<newline>\<newline>*Note: Image processing failed, using text extraction only*'',
          last_updated_date = ''2024-01-01T00:00:00''\<rparr>,
         \<lparr>source = ''deck.pptx:slide-1'',
          title = ''Table Slide 1 Analysis'',
          content = ''**Slide 1 Content (text-only fallback):**\<newline>b\<newline>\<newline>*Note: Image processing failed, using text extraction only*'',
          last_updated_date = ''2024-01-01T00:00:00''\<rparr>,
         \<lparr>source = ''deck.pptx:slide-6'',
          title = ''Table Slide 6 Analysis'',
          content = ''**Slide 6 Content (text-only fallback):**\<newline>c\<newline>\<newline>*Note: Image processing failed, using text extraction only*'',
          last_updated_date = ''2024-01-01T00:00:00''\<rparr>],
      table_processing_results =
        [\<lparr>tr_slide_number = 1, tr_source = ''deck.pptx:slide-1'',
          description_length = 104, extracted_text_length = 1\<rparr>,
         \<lparr>tr_slide_number = 6, tr_source = ''deck.pptx:slide-6'',
          description_length = 104, extracted_text_length = 1\<rparr>]\<rparr>"

text \<open>Two dictionaries whose keys were inserted in descending order, and the merged result
  of the merge of them with the text of one simple slide.\<close>

definition ex_tables :: "(int \<times> table_info) list" where
  "ex_tables =
     [(4, \<lparr>slide_number = 4, description = ''four'', extracted_text = ''d''\<rparr>),
      (2, \<lparr>slide_number = 2, description = ''two'', extracted_text = ''b''\<rparr>)]"

definition ex_descriptions :: "(int \<times> string) list" where
  "ex_descriptions =
     [(5, ''## deck.pptx:slide-5\<newline>\<newline>five''), (3, ''## deck.pptx:slide-3\<newline>\<newline>three''),
      (1, ''## deck.pptx:slide-1\<newline>\<newline>one'')]"

definition ex_merged_dicts :: merged where
  "ex_merged_dicts =
     \<lparr>source_file_name = ''deck.pptx'',
      total_markdown_entries = 5,
      total_table_slides_processed = 2,
      total_complex_slides_identified = 3,
      enhanced_markdown =
        ''# Simple Slides (Text Extraction)\<newline>\<newline>## deck.pptx:slide-2\<newline>\<newline>Hello\<newline>\<newline># Complex Slides (Gemini Vision Analysis)\<newline>\<newline>## deck.pptx:slide-1\<newline>\<newline>one\<newline>\<newline>## deck.pptx:slide-3\<newline>\<newline>three\<newline>\<newline>## deck.pptx:slide-5\<newline>\<newline>five\<newline>\<newline># Table Slides (Gemini Analysis)\<newline>\<newline>## deck.pptx:slide-2\<newline>\<newline>two\<newline>\<newline>## deck.pptx:slide-4\<newline>\<newline>four\<newline>\<newline>'',
      markdown_data =
        [\<lparr>source = ''deck.pptx:slide-5'', title = ''Complex Slide 5 Analysis'',
          content = ''## deck.pptx:slide-5\<newline>\<newline>five'',
          last_updated_date = ''2024-01-01T00:00:00''\<rparr>,
         \<lparr>source = ''deck.pptx:slide-3'', title = ''Complex Slide 3 Analysis'',
          content = ''## deck.pptx:slide-3\<newline>\<newline>three'',
          last_updated_date = ''2024-01-01T00:00:00''\<rparr>,
         \<lparr>source = ''deck.pptx:slide-1'', title = ''Complex Slide 1 Analysis'',
          content = ''## deck.pptx:slide-1\<newline>\<newline>one'',
          last_updated_date = ''2024-01-01T00:00:00''\<rparr>,
         \<lparr>source = ''deck.pptx:slide-4'', title = ''Table Slide 4 Analysis'',
          content = ''four'', last_updated_date = ''2024-01-01T00:00:00''\<rparr>,
         \<lparr>source = ''deck.pptx:slide-2'', title = ''Table Slide 2 Analysis'',
          content = ''two'', last_updated_date = ''2024-01-01T00:00:00''\<rparr>],
      table_processing_results =
        [\<lparr>tr_slide_number = 4, tr_source = ''deck.pptx:slide-4'',
          description_length = 4, extracted_text_length = 1\<rparr>,
         \<lparr>tr_slide_number = 2, tr_source = ''deck.pptx:slide-2'',
          description_length = 3, extracted_text_length = 1\<rparr>]\<rparr>"



section \<open>Properties of the string operations\<close>

lemma startswith_prefix: "startswith s p \<longleftrightarrow> prefix p s"
  by (induction s p rule: startswith.induct) auto

lemma str_in_sublist: "str_in p s \<longleftrightarrow> sublist p s"
proof (induction s)
  case Nil
  then show ?case by simp
next
  case (Cons c s)
  then show ?case by (auto simp: startswith_prefix sublist_Cons_right)
qed

section \<open>Properties of the slide filter\<close>

lemma should_skip_iff: "should_skip ps t \<longleftrightarrow> (\<exists>p\<in>set ps. sublist p t)"
  by (induction ps) (auto simp: str_in_sublist)

lemma filter_slide_text_eq: "filter_slide_text sl acc = acc @ folded_slide_text sl"
  by (induction sl arbitrary: acc)
     (auto simp: folded_slide_text_def text_of_def split: option.splits)

lemma filter_loop_eq:
  "filter_loop i sl (v, r) =
     (v @ map fst (filter (\<lambda>(j, s). \<not> should_skip skip_patterns (filter_slide_text s []))
                     (py_enumerate i sl)),
      r @ map fst (filter (\<lambda>(j, s). should_skip skip_patterns (filter_slide_text s []))
                     (py_enumerate i sl)))"
  by (induction sl arbitrary: i v r) auto

lemma in_py_enumerate:
  "(j, s) \<in> set (py_enumerate i xs) \<longleftrightarrow> i \<le> j \<and> j < i + int (length xs) \<and> s = xs ! nat (j - i)"
proof (induction xs arbitrary: i)
  case Nil
  then show ?case by simp
next
  case (Cons x xs)
  show ?case
  proof (cases "j = i")
    case True
    then show ?thesis using Cons[of "i + 1"] by auto
  next
    case False
    have "nat (j - i) = Suc (nat (j - (i + 1)))" if "i < j" using that by simp
    then show ?thesis using False Cons[of "i + 1"] by auto
  qed
qed

lemma map_fst_py_enumerate: "map fst (py_enumerate i xs) = map (\<lambda>k. i + int k) [0..<length xs]"
proof (induction xs arbitrary: i)
  case Nil
  then show ?case by simp
next
  case (Cons x xs)
  have "map (\<lambda>k. i + int k) [0..<length (x # xs)]
        = i # map (\<lambda>k. i + int k) (map Suc [0..<length xs])"
    by (simp add: upt_conv_Cons map_Suc_upt del: upt_Suc)
  also have "\<dots> = i # map (\<lambda>k. (i + 1) + int k) [0..<length xs]"
    by simp
  finally show ?case using Cons[of "i + 1"] by simp
qed

lemma sorted_fst_py_enumerate: "sorted (map fst (py_enumerate i xs))"
  unfolding map_fst_py_enumerate by (simp add: sorted_map sorted_wrt_iff_nth_less)

lemma distinct_fst_py_enumerate: "distinct (map fst (py_enumerate i xs))"
  unfolding map_fst_py_enumerate by (simp add: distinct_map inj_on_def)

lemma filter_useless_slides_Inr:
  "filter_useless_slides (Inr sl) =
     Inr (map fst (filter (\<lambda>(j, s). \<not> (\<exists>p\<in>set skip_patterns. sublist p (folded_slide_text s)))
                     (py_enumerate 1 sl)),
          map fst (filter (\<lambda>(j, s). \<exists>p\<in>set skip_patterns. sublist p (folded_slide_text s))
                     (py_enumerate 1 sl)))"
  by (simp add: filter_useless_slides_def filter_useless_slides_try_def filter_loop_eq
      should_skip_iff filter_slide_text_eq)

lemma in_map_fst_filter_py_enumerate:
  "i \<in> set (map fst (filter (\<lambda>(j, s). P s) (py_enumerate 1 sl))) \<longleftrightarrow>
     1 \<le> i \<and> i \<le> int (length sl) \<and> P (sl ! nat (i - 1))"
proof -
  have "i \<in> set (map fst (filter (\<lambda>(j, s). P s) (py_enumerate 1 sl))) \<longleftrightarrow>
        (\<exists>s. (i, s) \<in> set (py_enumerate 1 sl) \<and> P s)"
    by force
  also have "\<dots> \<longleftrightarrow> 1 \<le> i \<and> i \<le> int (length sl) \<and> P (sl ! nat (i - 1))"
    unfolding in_py_enumerate by auto
  finally show ?thesis .
qed

text \<open>
  Claim C4. On a presentation that parses, the filter returns two lists, and a slide
  index is in the removed list exactly when the text of its slide, concatenated and in
  lower case as \<open>folded_slide_text\<close> gives it (of every shape with a text attribute
  whose stripped value is not empty: a space and that value in lower case), contains one
  of the skip patterns as a contiguous run anywhere; the index is in the valid list
  exactly when the text contains none of them.
\<close>

theorem filter_removes_exactly_matching_slides:
  "\<exists>valid removed. filter_useless_slides (Inr sl) = Inr (valid, removed)
     \<and> (\<forall>i. i \<in> set removed \<longleftrightarrow>
            1 \<le> i \<and> i \<le> int (length sl)
            \<and> (\<exists>p\<in>set skip_patterns. sublist p (folded_slide_text (sl ! nat (i - 1)))))
     \<and> (\<forall>i. i \<in> set valid \<longleftrightarrow>
            1 \<le> i \<and> i \<le> int (length sl)
            \<and> \<not> (\<exists>p\<in>set skip_patterns. sublist p (folded_slide_text (sl ! nat (i - 1)))))"
  unfolding filter_useless_slides_Inr
  apply (rule exI, rule exI)
  apply (rule conjI, rule refl)
  apply (rule conjI; rule allI; rule in_map_fst_filter_py_enumerate)
  done

lemma ex_folded_thank_you:
  "folded_slide_text [ex_text_box ''Agenda'', ex_text_box ''  Thank You! ''] = '' agenda thank you!''"
  by code_simp

lemma ex_folded_results:
  "folded_slide_text [ex_text_box ''Q1 Results''] = '' q1 results''"
  by code_simp

theorem filter_removes_exactly_matching_slides_witness:
  "\<exists>valid removed.
     filter_useless_slides
       (Inr [[ex_text_box ''Q1 Results''], [ex_text_box ''Agenda'', ex_text_box ''  Thank You! '']])
       = Inr (valid, removed)
     \<and> 2 \<in> set removed \<and> 1 \<in> set valid \<and> 2 \<notin> set valid \<and> 1 \<notin> set removed"
proof -
  let ?sl = "[[ex_text_box ''Q1 Results''], [ex_text_box ''Agenda'', ex_text_box ''  Thank You! '']]"
  obtain valid removed where r: "filter_useless_slides (Inr ?sl) = Inr (valid, removed)"
    and rem: "\<And>i. i \<in> set removed \<longleftrightarrow> 1 \<le> i \<and> i \<le> int (length ?sl)
            \<and> (\<exists>p\<in>set skip_patterns. sublist p (folded_slide_text (?sl ! nat (i - 1))))"
    and val: "\<And>i. i \<in> set valid \<longleftrightarrow> 1 \<le> i \<and> i \<le> int (length ?sl)
            \<and> \<not> (\<exists>p\<in>set skip_patterns. sublist p (folded_slide_text (?sl ! nat (i - 1))))"
    using filter_removes_exactly_matching_slides [of ?sl] by blast
  have m2: "\<exists>p\<in>set skip_patterns. sublist p (folded_slide_text (?sl ! nat (2 - 1)))"
    by (simp add: ex_folded_thank_you skip_patterns_def str_in_sublist [symmetric])
  have m1: "\<not> (\<exists>p\<in>set skip_patterns. sublist p (folded_slide_text (?sl ! nat (1 - 1))))"
    by (simp add: ex_folded_results skip_patterns_def str_in_sublist [symmetric])
  have "2 \<in> set removed" using rem [of 2] m2 by simp
  moreover have "1 \<in> set valid" using val [of 1] m1 by simp
  moreover have "2 \<notin> set valid" using val [of 2] m2 by simp
  moreover have "1 \<notin> set removed" using rem [of 1] m1 by simp
  ultimately show ?thesis using r by blast
qed

section \<open>Properties of the slide classifier\<close>

lemma index_ok_valid: "1 \<le> i \<Longrightarrow> i \<le> int (length sl) \<Longrightarrow> index_ok sl i"
  by (simp add: index_ok_def slides_getitem_def Let_def)

lemma slide_of_valid: "1 \<le> i \<Longrightarrow> i \<le> int (length sl) \<Longrightarrow> slide_of sl i = sl ! nat (i - 1)"
  by (simp add: slide_of_def slides_getitem_def Let_def)

lemma index_beyond_not_ok: "int (length sl) < i \<Longrightarrow> \<not> index_ok sl i"
  by (simp add: index_ok_def slides_getitem_def Let_def)

lemma slides_getitem_ok: "index_ok sl i \<Longrightarrow> slides_getitem sl (i - 1) = Inr (slide_of sl i)"
  by (simp add: index_ok_def slide_of_def split: sum.splits)

lemma slides_getitem_not_ok: "\<not> index_ok sl i \<Longrightarrow> slides_getitem sl (i - 1) = Inl IndexError"
  by (simp add: index_ok_def slides_getitem_def Let_def split: if_splits)

subsection \<open>Reads of shape types\<close>

lemma read_shape_types_readable:
  "types_readable xs \<Longrightarrow> read_shape_types xs = Inr (map (\<lambda>sh. projr (shape_type sh)) xs)"
  by (induction xs) (auto simp: types_readable_def split: sum.splits)

lemma read_shape_types_unreadable:
  "\<not> types_readable xs \<Longrightarrow> \<exists>e. read_shape_types xs = Inl e"
  by (induction xs) (auto simp: types_readable_def split: sum.splits)

lemma count_types_readable:
  "types_readable xs \<Longrightarrow>
   count_list (map (\<lambda>sh. projr (shape_type sh)) xs) v = length (filter (\<lambda>sh. shape_type sh = Inr v) xs)"
  by (induction xs) (auto simp: types_readable_def split: sum.splits)

lemma collect_visual_graphics_step:
  "shape_type sh = Inr ty \<Longrightarrow>
   collect_visual_graphics (sh # rest) acc =
     collect_visual_graphics rest (if visual_graphic sh then acc @ [sh] else acc)"
  by (auto simp: visual_graphic_def long_text_def text_of_def Let_def str_in_sublist
      split: option.splits)

lemma collect_visual_graphics_readable:
  "types_readable xs \<Longrightarrow> collect_visual_graphics xs acc = Inr (acc @ filter visual_graphic xs)"
proof (induction xs arbitrary: acc)
  case Nil
  then show ?case by simp
next
  case (Cons sh xs)
  from Cons.prems obtain ty where ty: "shape_type sh = Inr ty" and rest: "types_readable xs"
    by (cases "shape_type sh") (auto simp: types_readable_def)
  show ?case
    unfolding collect_visual_graphics_step [OF ty] Cons.IH [OF rest] by simp
qed

lemma table_textbox_flags_step:
  "shape_type sh = Inr ty \<Longrightarrow>
   table_textbox_flags (sh # rest) (a, b) =
     table_textbox_flags rest
       (a \<or> shape_type sh = Inr MSO_TABLE,
        b \<or> (shape_type sh = Inr MSO_TEXT_BOX \<and> nonempty_text sh))"
  by (auto simp: nonempty_text_def text_of_def split: option.splits)

lemma table_textbox_flags_readable:
  "types_readable s \<Longrightarrow>
   table_textbox_flags s (a, b) =
     Inr (a \<or> (\<exists>sh\<in>set s. shape_type sh = Inr MSO_TABLE),
          b \<or> (\<exists>sh\<in>set s. shape_type sh = Inr MSO_TEXT_BOX \<and> nonempty_text sh))"
proof (induction s arbitrary: a b)
  case Nil
  then show ?case by simp
next
  case (Cons sh s)
  from Cons.prems obtain ty where ty: "shape_type sh = Inr ty" and rest: "types_readable s"
    by (cases "shape_type sh") (auto simp: types_readable_def)
  show ?case
    unfolding table_textbox_flags_step [OF ty] Cons.IH [OF rest] by auto
qed

lemma table_textbox_flags_unreadable:
  "\<not> types_readable s \<Longrightarrow> \<exists>e. table_textbox_flags s (a, b) = Inl e"
proof (induction s arbitrary: a b)
  case Nil
  then show ?case by (simp add: types_readable_def)
next
  case (Cons sh s)
  show ?case
  proof (cases "shape_type sh")
    case (Inl e)
    then show ?thesis by simp
  next
    case (Inr ty)
    then have "\<not> types_readable s" using Cons.prems by (simp add: types_readable_def)
    then show ?thesis using Inr Cons.IH by simp
  qed
qed

subsection \<open>The loops over the indices\<close>

lemma separate_loop_step:
  "category_at sl i = Some cat \<Longrightarrow>
   separate_loop sl (i # vs) (t, c, s) =
     separate_loop sl vs
       (if cat = CatTable then t @ [i] else t,
        if cat = CatComplex then c @ [i] else c,
        if cat = CatSimple then s @ [i] else s)"
proof -
  assume a: "category_at sl i = Some cat"
  then have ok: "slides_getitem sl (i - 1) = Inr (slide_of sl i)"
    and cl: "classify_slide (slide_of sl i) = Some cat"
    by (auto simp: category_at_def slides_getitem_ok split: if_splits)
  from cl show ?thesis
    by (auto simp: ok classify_slide_def split: if_splits sum.splits prod.splits)
qed

lemma separate_loop_raises:
  "category_at sl i = None \<Longrightarrow> \<exists>e. separate_loop sl (i # vs) (t, c, s) = Inl e"
proof (cases "index_ok sl i")
  case False
  then show ?thesis by (simp add: slides_getitem_not_ok)
next
  case True
  assume "category_at sl i = None"
  with True have "classify_slide (slide_of sl i) = None" by (simp add: category_at_def)
  then show ?thesis
    by (auto simp: slides_getitem_ok [OF True] classify_slide_def split: if_splits sum.splits prod.splits)
qed

lemma separate_loop_ok:
  "list_all (\<lambda>i. category_at sl i \<noteq> None) vs \<Longrightarrow>
   separate_loop sl vs (t, c, s) =
     Inr (t @ filter (\<lambda>i. category_at sl i = Some CatTable) vs,
          c @ filter (\<lambda>i. category_at sl i = Some CatComplex) vs,
          s @ filter (\<lambda>i. category_at sl i = Some CatSimple) vs)"
proof (induction vs arbitrary: t c s)
  case Nil
  then show ?case by simp
next
  case (Cons i vs)
  then obtain cat where cat: "category_at sl i = Some cat"
    and rest: "list_all (\<lambda>i. category_at sl i \<noteq> None) vs"
    by auto
  show ?case
    unfolding separate_loop_step [OF cat] Cons.IH [OF rest]
    by (cases cat) (simp_all add: cat)
qed

lemma separate_loop_not_ok:
  "\<not> list_all (\<lambda>i. category_at sl i \<noteq> None) vs \<Longrightarrow> \<exists>e. separate_loop sl vs (t, c, s) = Inl e"
proof (induction vs arbitrary: t c s)
  case Nil
  then show ?case by simp
next
  case (Cons i vs)
  show ?case
  proof (cases "category_at sl i")
    case None
    then show ?thesis by (rule separate_loop_raises)
  next
    case (Some cat)
    then have "\<not> list_all (\<lambda>i. category_at sl i \<noteq> None) vs" using Cons.prems by simp
    then show ?thesis unfolding separate_loop_step [OF Some] by (rule Cons.IH)
  qed
qed

lemma separate_table_loop_step:
  "table_at sl i = Some b \<Longrightarrow>
   separate_table_loop sl (i # vs) (t, r) =
     separate_table_loop sl vs (if b then t @ [i] else t, if b then r else r @ [i])"
proof -
  assume a: "table_at sl i = Some b"
  then have ok: "slides_getitem sl (i - 1) = Inr (slide_of sl i)"
    and tb: "slide_has_table (slide_of sl i) = Inr b"
    by (auto simp: table_at_def slides_getitem_ok split: if_splits sum.splits)
  show ?thesis by (simp add: ok tb)
qed

lemma separate_table_loop_raises:
  "table_at sl i = None \<Longrightarrow> \<exists>e. separate_table_loop sl (i # vs) (t, r) = Inl e"
proof (cases "index_ok sl i")
  case False
  then show ?thesis by (simp add: slides_getitem_not_ok)
next
  case True
  assume "table_at sl i = None"
  with True obtain e where "slide_has_table (slide_of sl i) = Inl e"
    by (auto simp: table_at_def split: sum.splits)
  then show ?thesis by (simp add: slides_getitem_ok [OF True])
qed

lemma separate_table_loop_ok:
  "list_all (\<lambda>i. table_at sl i \<noteq> None) vs \<Longrightarrow>
   separate_table_loop sl vs (t, r) =
     Inr (t @ filter (\<lambda>i. table_at sl i = Some True) vs,
          r @ filter (\<lambda>i. table_at sl i = Some False) vs)"
proof (induction vs arbitrary: t r)
  case Nil
  then show ?case by simp
next
  case (Cons i vs)
  then obtain b where b: "table_at sl i = Some b"
    and rest: "list_all (\<lambda>i. table_at sl i \<noteq> None) vs"
    by auto
  show ?case
    unfolding separate_table_loop_step [OF b] Cons.IH [OF rest]
    by (cases b) (simp_all add: b)
qed

lemma separate_table_loop_not_ok:
  "\<not> list_all (\<lambda>i. table_at sl i \<noteq> None) vs \<Longrightarrow> \<exists>e. separate_table_loop sl vs (t, r) = Inl e"
proof (induction vs arbitrary: t r)
  case Nil
  then show ?case by simp
next
  case (Cons i vs)
  show ?case
  proof (cases "table_at sl i")
    case None
    then show ?thesis by (rule separate_table_loop_raises)
  next
    case (Some b)
    then have "\<not> list_all (\<lambda>i. table_at sl i \<noteq> None) vs" using Cons.prems by simp
    then show ?thesis unfolding separate_table_loop_step [OF Some] by (rule Cons.IH)
  qed
qed

text \<open>The four outcomes of \<^verbatim>\<open>_separate_slides_by_complexity\<close>: its loop completes;
  its loop raises and the loop of the fallback completes; both raise; the presentation
  does not parse.\<close>

lemma separate_slides_main_path:
  "list_all (\<lambda>i. category_at sl i \<noteq> None) vs \<Longrightarrow>
   separate_slides_by_complexity (Inr sl) vs =
     (filter (\<lambda>i. category_at sl i = Some CatTable) vs,
      filter (\<lambda>i. category_at sl i = Some CatComplex) vs,
      filter (\<lambda>i. category_at sl i = Some CatSimple) vs)"
  by (simp add: separate_slides_by_complexity_def separate_loop_ok)

lemma separate_slides_fallback:
  assumes "\<not> list_all (\<lambda>i. category_at sl i \<noteq> None) vs"
    and "list_all (\<lambda>i. table_at sl i \<noteq> None) vs"
  shows "separate_slides_by_complexity (Inr sl) vs =
     (filter (\<lambda>i. table_at sl i = Some True) vs, [], filter (\<lambda>i. table_at sl i = Some False) vs)"
proof -
  obtain e where "separate_loop sl vs ([], [], []) = Inl e"
    using separate_loop_not_ok [OF assms(1)] by blast
  then show ?thesis
    by (simp add: separate_slides_by_complexity_def separate_table_slides_def
        separate_table_loop_ok [OF assms(2)])
qed

lemma separate_slides_fallback_raises:
  assumes "\<not> list_all (\<lambda>i. category_at sl i \<noteq> None) vs"
    and "\<not> list_all (\<lambda>i. table_at sl i \<noteq> None) vs"
  shows "separate_slides_by_complexity (Inr sl) vs = ([], [], vs)"
proof -
  obtain e where "separate_loop sl vs ([], [], []) = Inl e"
    using separate_loop_not_ok [OF assms(1)] by blast
  moreover obtain e' where "separate_table_loop sl vs ([], []) = Inl e'"
    using separate_table_loop_not_ok [OF assms(2)] by blast
  ultimately show ?thesis
    by (simp add: separate_slides_by_complexity_def separate_table_slides_def)
qed

lemma separate_slides_parse_error:
  "separate_slides_by_complexity (Inl e) vs = ([], [], vs)"
  by (simp add: separate_slides_by_complexity_def separate_table_slides_def)

lemma mset_by_category:
  "list_all (\<lambda>x. f x \<noteq> None) xs \<Longrightarrow>
   mset (filter (\<lambda>x. f x = Some CatTable) xs) + mset (filter (\<lambda>x. f x = Some CatComplex) xs)
     + mset (filter (\<lambda>x. f x = Some CatSimple) xs) = mset xs"
proof (induction xs)
  case Nil
  then show ?case by simp
next
  case (Cons x xs)
  then obtain cat where "f x = Some cat" by auto
  with Cons show ?case by (cases cat) auto
qed

lemma mset_by_table:
  "list_all (\<lambda>x. f x \<noteq> None) xs \<Longrightarrow>
   mset (filter (\<lambda>x. f x = Some True) xs) + mset (filter (\<lambda>x. f x = Some False) xs) = mset xs"
proof (induction xs)
  case Nil
  then show ?case by simp
next
  case (Cons x xs)
  then obtain b where "f x = Some b" by auto
  with Cons show ?case by (cases b) auto
qed

text \<open>Whatever the path, each list is the given list with some indices left out.\<close>

lemma separate_slides_filters:
  assumes "separate_slides_by_complexity prs vs = (t, c, s)"
  shows "\<exists>P Q R. t = filter P vs \<and> c = filter Q vs \<and> s = filter R vs"
proof -
  have e: "[] = filter (\<lambda>i. False) vs" "vs = filter (\<lambda>i. True) vs" by simp_all
  consider (parse_error) e where "prs = Inl e"
    | (raises) sl where "prs = Inr sl" "\<not> list_all (\<lambda>i. category_at sl i \<noteq> None) vs"
        "\<not> list_all (\<lambda>i. table_at sl i \<noteq> None) vs"
    | (fallback) sl where "prs = Inr sl" "\<not> list_all (\<lambda>i. category_at sl i \<noteq> None) vs"
        "list_all (\<lambda>i. table_at sl i \<noteq> None) vs"
    | (main) sl where "prs = Inr sl" "list_all (\<lambda>i. category_at sl i \<noteq> None) vs"
    by (cases prs) auto
  then show ?thesis
  proof cases
    case parse_error
    then have "t = []" "c = []" "s = vs" using assms by (simp_all add: separate_slides_parse_error)
    then show ?thesis using e by metis
  next
    case raises
    then have "t = []" "c = []" "s = vs"
      using assms by (simp_all add: separate_slides_fallback_raises)
    then show ?thesis using e by metis
  next
    case fallback
    then have "t = filter (\<lambda>i. table_at sl i = Some True) vs" "c = []"
      "s = filter (\<lambda>i. table_at sl i = Some False) vs"
      using assms by (simp_all add: separate_slides_fallback)
    then show ?thesis using e by metis
  next
    case main
    then show ?thesis using assms by (auto simp: separate_slides_main_path)
  qed
qed

text \<open>
  Claim C1. Whatever the presentation (also one that does not parse) and whatever the
  list of indices (also one with an index out of range, which sends the function to its
  fallback), the three lists returned hold the given indices, each as often as it was
  given, and no index is in two of the lists.
\<close>

theorem separate_slides_is_partition:
  assumes "separate_slides_by_complexity prs valid_slides = (table_slides, complex_slides, simple_slides)"
  shows "mset table_slides + mset complex_slides + mset simple_slides = mset valid_slides
         \<and> set table_slides \<union> set complex_slides \<union> set simple_slides = set valid_slides
         \<and> set table_slides \<inter> set complex_slides = {}
         \<and> set table_slides \<inter> set simple_slides = {}
         \<and> set complex_slides \<inter> set simple_slides = {}"
proof -
  have md: "mset table_slides + mset complex_slides + mset simple_slides = mset valid_slides
         \<and> (set table_slides \<inter> set complex_slides = {}
            \<and> set table_slides \<inter> set simple_slides = {}
            \<and> set complex_slides \<inter> set simple_slides = {})"
  proof -
    consider (parse_error) e where "prs = Inl e"
      | (raises) sl where "prs = Inr sl"
          "\<not> list_all (\<lambda>i. category_at sl i \<noteq> None) valid_slides"
          "\<not> list_all (\<lambda>i. table_at sl i \<noteq> None) valid_slides"
      | (fallback) sl where "prs = Inr sl"
          "\<not> list_all (\<lambda>i. category_at sl i \<noteq> None) valid_slides"
          "list_all (\<lambda>i. table_at sl i \<noteq> None) valid_slides"
      | (main) sl where "prs = Inr sl" "list_all (\<lambda>i. category_at sl i \<noteq> None) valid_slides"
      by (cases prs) auto
    then show ?thesis
    proof cases
      case parse_error
      then show ?thesis using assms by (simp add: separate_slides_parse_error)
    next
      case raises
      then show ?thesis using assms by (simp add: separate_slides_fallback_raises)
    next
      case fallback
      then have eq: "table_slides = filter (\<lambda>i. table_at sl i = Some True) valid_slides"
        "complex_slides = []"
        "simple_slides = filter (\<lambda>i. table_at sl i = Some False) valid_slides"
        using assms by (simp_all add: separate_slides_fallback)
      have "mset table_slides + mset complex_slides + mset simple_slides = mset valid_slides"
        unfolding eq using mset_by_table [OF fallback(3)] by simp
      moreover have "set table_slides \<inter> set simple_slides = {}"
        unfolding eq by auto
      ultimately show ?thesis by (simp add: eq(2))
    next
      case main
      then have eq: "table_slides = filter (\<lambda>i. category_at sl i = Some CatTable) valid_slides"
        "complex_slides = filter (\<lambda>i. category_at sl i = Some CatComplex) valid_slides"
        "simple_slides = filter (\<lambda>i. category_at sl i = Some CatSimple) valid_slides"
        using assms by (simp_all add: separate_slides_main_path)
      have "mset table_slides + mset complex_slides + mset simple_slides = mset valid_slides"
        unfolding eq by (rule mset_by_category [OF main(2)])
      moreover have "set table_slides \<inter> set complex_slides = {}"
        "set table_slides \<inter> set simple_slides = {}"
        "set complex_slides \<inter> set simple_slides = {}"
        unfolding eq by auto
      ultimately show ?thesis by simp
    qed
  qed
  then have m: "mset table_slides + mset complex_slides + mset simple_slides = mset valid_slides"
    by simp
  have "set_mset (mset table_slides + mset complex_slides + mset simple_slides)
        = set_mset (mset valid_slides)"
    using m by simp
  then have "set table_slides \<union> set complex_slides \<union> set simple_slides = set valid_slides"
    by simp
  with md show ?thesis by simp
qed

lemma ex_separate_main:
  "separate_slides_by_complexity
     (Inr [[ex_text_box ''Hello''], [ex_text_box ''Q1'', ex_table [[''a'']]], [ex_table [[''b'']]], [ex_picture]])
     [1, 2, 3, 4] = ([3], [2, 4], [1])"
  by code_simp

lemma ex_separate_fallback:
  "separate_slides_by_complexity
     (Inr [[ex_text_box ''Hello''], [ex_text_box ''Q1'', ex_table [[''a'']]], [ex_table [[''b'']]], [ex_picture]])
     [1, 2, 3, 9] = ([], [], [1, 2, 3, 9])"
  by code_simp

theorem separate_slides_is_partition_witness:
  "(separate_slides_by_complexity
      (Inr [[ex_text_box ''Hello''], [ex_text_box ''Q1'', ex_table [[''a'']]], [ex_table [[''b'']]], [ex_picture]])
      [1, 2, 3, 4] = ([3], [2, 4], [1])
    \<and> mset [3] + mset [2, 4] + mset [1] = mset [1, 2, 3, 4 :: int]
    \<and> set [3] \<inter> set [2, 4 :: int] = {})
   \<and> (separate_slides_by_complexity
      (Inr [[ex_text_box ''Hello''], [ex_text_box ''Q1'', ex_table [[''a'']]], [ex_table [[''b'']]], [ex_picture]])
      [1, 2, 3, 9] = ([], [], [1, 2, 3, 9])
    \<and> mset [] + mset [] + mset [1, 2, 3, 9] = mset [1, 2, 3, 9 :: int])"
  using separate_slides_is_partition [OF ex_separate_main]
    separate_slides_is_partition [OF ex_separate_fallback]
    ex_separate_main ex_separate_fallback
  by simp

subsection \<open>The complexity test\<close>

lemma partition_shapes_eq:
  "partition_shapes sl (c, p) =
     (c @ filter (\<lambda>sh. \<not> is_placeholder sh) sl, p @ filter is_placeholder sl)"
  by (induction sl arbitrary: c p) auto

lemma is_complex_slide_try_readable:
  assumes "types_readable (filter (\<lambda>sh. \<not> is_placeholder sh) sl)"
  shows "is_complex_slide_try sl =
     Inr (let content = filter (\<lambda>sh. \<not> is_placeholder sh) sl;
              visual_graphics = filter visual_graphic content
          in length content > 6
             \<or> length visual_graphics > 2
             \<or> (\<exists>sh\<in>set content. sublist ''connector'' (lower (name sh)))
             \<or> (\<exists>sh\<in>set content. shapes sh \<noteq> None)
             \<or> length (filter (\<lambda>sh. shape_type sh = Inr 13) content) > 0
             \<or> (length (filter (\<lambda>sh. shape_type sh = Inr 19) content) > 0
                 \<and> length visual_graphics > 0))"
  unfolding is_complex_slide_try_def partition_shapes_eq
  by (simp add: Let_def read_shape_types_readable [OF assms]
      collect_visual_graphics_readable [OF assms] count_types_readable [OF assms]
      list_ex_iff str_in_sublist)

lemma is_complex_slide_try_unreadable:
  assumes "\<not> types_readable (filter (\<lambda>sh. \<not> is_placeholder sh) sl)"
  shows "\<exists>e. is_complex_slide_try sl = Inl e"
proof -
  obtain e where "read_shape_types (filter (\<lambda>sh. \<not> is_placeholder sh) sl) = Inl e"
    using read_shape_types_unreadable [OF assms] by blast
  then show ?thesis
    unfolding is_complex_slide_try_def partition_shapes_eq by (simp add: Let_def)
qed

lemma visual_graphic_unfold:
  "visual_graphic =
     (\<lambda>sh. shape_type sh = Inr 13 \<or> shape_type sh = Inr 9
            \<or> (shape_type sh = Inr 1
                \<and> \<not> ((sublist ''rectangle'' (lower (name sh)) \<or> sublist ''rect'' (lower (name sh)))
                      \<and> (case text_attr sh of
                            None \<Rightarrow> False
                          | Some t \<Rightarrow> strip t \<noteq> [] \<and> length (strip t) > 10))))"
  by (rule ext) (simp add: visual_graphic_def long_text_def)

lemma content_filter:
  "filter (\<lambda>sh. \<not> (sublist ''footer'' (lower (name sh))
                       \<or> sublist ''slide number'' (lower (name sh))
                       \<or> sublist ''placeholder'' (lower (name sh))
                       \<or> placeholder_format sh)) sl
   = filter (\<lambda>sh. \<not> is_placeholder sh) sl"
  by (rule filter_cong [OF refl]) (auto simp: is_placeholder_def Let_def str_in_sublist)

text \<open>
  Claim C2, as the code has it. Take the shapes of a slide that are no placeholders: those
  whose name (in lower case) contains neither "footer" nor "slide number" nor
  "placeholder" and that have no placeholder format. When
  the type of each of them can be read, the complexity test is true exactly when there are
  more than 6 of them, or more than 2 visual graphics, or one whose name (in lower case)
  contains "connector", or a group (a shape with member shapes), or a picture, or a table
  together with a visual graphic; the visual graphics are the pictures (type 13), the lines
  (type 9) and the auto shapes (type 1) other than those whose name (in lower case)
  contains "rectangle" or "rect" and whose stripped text is not empty and longer than 10
  characters. When the read of the type of one of them raises, the test is false.
\<close>

theorem is_complex_slide_amended:
  "((\<forall>sh\<in>set (filter (\<lambda>sh. \<not> (sublist ''footer'' (lower (name sh))
                       \<or> sublist ''slide number'' (lower (name sh))
                       \<or> sublist ''placeholder'' (lower (name sh))
                       \<or> placeholder_format sh)) sl). \<not> isl (shape_type sh)) \<longrightarrow>
      (is_complex_slide sl \<longleftrightarrow>
         (let content = filter (\<lambda>sh. \<not> (sublist ''footer'' (lower (name sh))
                       \<or> sublist ''slide number'' (lower (name sh))
                       \<or> sublist ''placeholder'' (lower (name sh))
                       \<or> placeholder_format sh)) sl;
              visual_graphics =
                filter (\<lambda>sh. shape_type sh = Inr 13 \<or> shape_type sh = Inr 9
                          \<or> (shape_type sh = Inr 1
                              \<and> \<not> ((sublist ''rectangle'' (lower (name sh))
                                      \<or> sublist ''rect'' (lower (name sh)))
                                    \<and> (case text_attr sh of
                                          None \<Rightarrow> False
                                        | Some t \<Rightarrow> strip t \<noteq> [] \<and> length (strip t) > 10))))
                  content
          in length content > 6
             \<or> length visual_graphics > 2
             \<or> (\<exists>sh\<in>set content. sublist ''connector'' (lower (name sh)))
             \<or> (\<exists>sh\<in>set content. shapes sh \<noteq> None)
             \<or> length (filter (\<lambda>sh. shape_type sh = Inr 13) content) > 0
             \<or> (length (filter (\<lambda>sh. shape_type sh = Inr 19) content) > 0
                 \<and> length visual_graphics > 0))))
   \<and> ((\<exists>sh\<in>set (filter (\<lambda>sh. \<not> (sublist ''footer'' (lower (name sh))
                       \<or> sublist ''slide number'' (lower (name sh))
                       \<or> sublist ''placeholder'' (lower (name sh))
                       \<or> placeholder_format sh)) sl). isl (shape_type sh))
        \<longrightarrow> \<not> is_complex_slide sl)"
proof (intro conjI impI)
  assume "\<forall>sh\<in>set (filter (\<lambda>sh. \<not> (sublist ''footer'' (lower (name sh))
                       \<or> sublist ''slide number'' (lower (name sh))
                       \<or> sublist ''placeholder'' (lower (name sh))
                       \<or> placeholder_format sh)) sl). \<not> isl (shape_type sh)"
  then have r: "types_readable (filter (\<lambda>sh. \<not> is_placeholder sh) sl)"
    unfolding content_filter by (simp add: types_readable_def list_all_iff)
  show "is_complex_slide sl \<longleftrightarrow>
         (let content = filter (\<lambda>sh. \<not> (sublist ''footer'' (lower (name sh))
                       \<or> sublist ''slide number'' (lower (name sh))
                       \<or> sublist ''placeholder'' (lower (name sh))
                       \<or> placeholder_format sh)) sl;
              visual_graphics =
                filter (\<lambda>sh. shape_type sh = Inr 13 \<or> shape_type sh = Inr 9
                          \<or> (shape_type sh = Inr 1
                              \<and> \<not> ((sublist ''rectangle'' (lower (name sh))
                                      \<or> sublist ''rect'' (lower (name sh)))
                                    \<and> (case text_attr sh of
                                          None \<Rightarrow> False
                                        | Some t \<Rightarrow> strip t \<noteq> [] \<and> length (strip t) > 10))))
                  content
          in length content > 6
             \<or> length visual_graphics > 2
             \<or> (\<exists>sh\<in>set content. sublist ''connector'' (lower (name sh)))
             \<or> (\<exists>sh\<in>set content. shapes sh \<noteq> None)
             \<or> length (filter (\<lambda>sh. shape_type sh = Inr 13) content) > 0
             \<or> (length (filter (\<lambda>sh. shape_type sh = Inr 19) content) > 0
                 \<and> length visual_graphics > 0))"
    unfolding content_filter
    unfolding is_complex_slide_def is_complex_slide_try_readable [OF r] visual_graphic_unfold
    by simp
next
  assume "\<exists>sh\<in>set (filter (\<lambda>sh. \<not> (sublist ''footer'' (lower (name sh))
                       \<or> sublist ''slide number'' (lower (name sh))
                       \<or> sublist ''placeholder'' (lower (name sh))
                       \<or> placeholder_format sh)) sl). isl (shape_type sh)"
  then have "\<not> types_readable (filter (\<lambda>sh. \<not> is_placeholder sh) sl)"
    unfolding content_filter by (simp add: types_readable_def list_all_iff)
  then obtain e where "is_complex_slide_try sl = Inl e"
    using is_complex_slide_try_unreadable by blast
  then show "\<not> is_complex_slide sl" by (simp add: is_complex_slide_def)
qed

lemma ex_content_shapes:
  "filter (\<lambda>sh. \<not> (sublist ''footer'' (lower (name sh))
                       \<or> sublist ''slide number'' (lower (name sh))
                       \<or> sublist ''placeholder'' (lower (name sh))
                       \<or> placeholder_format sh)) [ex_text_box ''Agenda'', ex_picture]
     = [ex_text_box ''Agenda'', ex_picture]"
  "filter (\<lambda>sh. \<not> (sublist ''footer'' (lower (name sh))
                       \<or> sublist ''slide number'' (lower (name sh))
                       \<or> sublist ''placeholder'' (lower (name sh))
                       \<or> placeholder_format sh)) [ex_text_box ''Agenda'', ex_untyped]
     = [ex_text_box ''Agenda'', ex_untyped]"
  unfolding content_filter by code_simp+

theorem is_complex_slide_amended_witness:
  "is_complex_slide [ex_text_box ''Agenda'', ex_picture]
   \<and> \<not> is_complex_slide [ex_text_box ''Agenda'', ex_untyped]"
proof -
  have r: "\<forall>sh\<in>set [ex_text_box ''Agenda'', ex_picture]. \<not> isl (shape_type sh)"
    by (simp add: ex_text_box_def ex_picture_def)
  have p: "length (filter (\<lambda>sh. shape_type sh = Inr 13) [ex_text_box ''Agenda'', ex_picture]) > 0"
    by (simp add: ex_text_box_def ex_picture_def)
  have u: "\<exists>sh\<in>set [ex_text_box ''Agenda'', ex_untyped]. isl (shape_type sh)"
    by (simp add: ex_untyped_def)
  note t1 = is_complex_slide_amended
    [of "[ex_text_box ''Agenda'', ex_picture]", unfolded ex_content_shapes(1),
     THEN conjunct1, THEN mp, OF r]
  note t2 = is_complex_slide_amended
    [of "[ex_text_box ''Agenda'', ex_untyped]", unfolded ex_content_shapes(2),
     THEN conjunct2, THEN mp, OF u]
  have "is_complex_slide [ex_text_box ''Agenda'', ex_picture]"
    unfolding t1 Let_def using p by blast
  then show ?thesis using t2 by (rule conjI)
qed

text \<open>
  Claim C2 as stated fails. A slide of six text boxes and a seventh shape whose type
  cannot be read has seven shapes that are no placeholders, more than 6; the read raises
  in the analysis and the test answers that the slide is not complex.
\<close>

theorem is_complex_slide_counterexample:
  "length (filter (\<lambda>sh. \<not> (sublist ''footer'' (lower (name sh))
                       \<or> sublist ''slide number'' (lower (name sh))
                       \<or> sublist ''placeholder'' (lower (name sh))
                       \<or> placeholder_format sh))
             [ex_text_box ''a'', ex_text_box ''b'', ex_text_box ''c'', ex_text_box ''d'',
              ex_text_box ''e'', ex_text_box ''f'', ex_untyped]) > 6
   \<and> \<not> is_complex_slide
         [ex_text_box ''a'', ex_text_box ''b'', ex_text_box ''c'', ex_text_box ''d'',
          ex_text_box ''e'', ex_text_box ''f'', ex_untyped]"
  unfolding content_filter by code_simp

subsection \<open>The table and text test\<close>

lemma classify_slide_complex: "is_complex_slide s \<Longrightarrow> classify_slide s = Some CatComplex"
  by (simp add: classify_slide_def)

lemma classify_slide_readable:
  "\<not> is_complex_slide s \<Longrightarrow> types_readable s \<Longrightarrow>
   classify_slide s =
     Some (if (\<exists>sh\<in>set s. shape_type sh = Inr MSO_TABLE)
              \<and> (\<exists>sh\<in>set s. shape_type sh = Inr MSO_TEXT_BOX \<and> nonempty_text sh)
           then CatComplex
           else if (\<exists>sh\<in>set s. shape_type sh = Inr MSO_TABLE) then CatTable
           else CatSimple)"
  by (simp add: classify_slide_def table_textbox_flags_readable)

lemma classify_slide_unreadable:
  "\<not> is_complex_slide s \<Longrightarrow> \<not> types_readable s \<Longrightarrow> classify_slide s = None"
  using table_textbox_flags_unreadable [of s False False]
  by (auto simp: classify_slide_def)

lemma nonempty_text_unfold:
  "nonempty_text = (\<lambda>sh. case text_attr sh of None \<Rightarrow> False | Some t \<Rightarrow> strip t \<noteq> [])"
  by (rule ext) (simp add: nonempty_text_def)

text \<open>
  Claim C3, as the code has it. Take a presentation that parses and a list of indices.
  When the loop of the classifier completes (every index in the list is the position of
  a slide, and every such slide that the complexity test does not find complex has only
  shapes whose type can be read), a slide in the list that the complexity test does not
  find complex is put in the complex list, and in no other, when it has a table shape and
  a text box whose stripped text is not empty; in the table list, and in no other, when it
  has a table shape and no such text box; and in the simple list, and in no other, when it
  has no table shape. When the loop raises (the list has an index beyond the last slide,
  or the position of a slide that is not found complex and has a shape whose type cannot
  be read), the fallback puts no slide in the complex list.
\<close>

theorem step_b_classification_amended:
  assumes "separate_slides_by_complexity (Inr sl) valid_slides
             = (table_slides, complex_slides, simple_slides)"
  shows "((\<forall>j\<in>set valid_slides.
             1 \<le> j \<and> j \<le> int (length sl)
             \<and> (is_complex_slide (sl ! nat (j - 1))
                 \<or> (\<forall>sh\<in>set (sl ! nat (j - 1)). \<not> isl (shape_type sh))))
          \<longrightarrow> (\<forall>i\<in>set valid_slides.
                 \<not> is_complex_slide (sl ! nat (i - 1)) \<longrightarrow>
                   ((\<exists>sh\<in>set (sl ! nat (i - 1)). shape_type sh = Inr MSO_TABLE)
                      \<and> (\<exists>sh\<in>set (sl ! nat (i - 1)).
                            shape_type sh = Inr MSO_TEXT_BOX
                            \<and> (case text_attr sh of None \<Rightarrow> False | Some t \<Rightarrow> strip t \<noteq> []))
                    \<longrightarrow> i \<in> set complex_slides \<and> i \<notin> set table_slides \<and> i \<notin> set simple_slides)
                 \<and> ((\<exists>sh\<in>set (sl ! nat (i - 1)). shape_type sh = Inr MSO_TABLE)
                      \<and> \<not> (\<exists>sh\<in>set (sl ! nat (i - 1)).
                            shape_type sh = Inr MSO_TEXT_BOX
                            \<and> (case text_attr sh of None \<Rightarrow> False | Some t \<Rightarrow> strip t \<noteq> []))
                    \<longrightarrow> i \<in> set table_slides \<and> i \<notin> set complex_slides \<and> i \<notin> set simple_slides)
                 \<and> (\<not> (\<exists>sh\<in>set (sl ! nat (i - 1)). shape_type sh = Inr MSO_TABLE)
                    \<longrightarrow> i \<in> set simple_slides \<and> i \<notin> set table_slides \<and> i \<notin> set complex_slides)))
       \<and> ((\<exists>j\<in>set valid_slides.
              int (length sl) < j
              \<or> (1 \<le> j \<and> j \<le> int (length sl) \<and> \<not> is_complex_slide (sl ! nat (j - 1))
                  \<and> (\<exists>sh\<in>set (sl ! nat (j - 1)). isl (shape_type sh))))
          \<longrightarrow> complex_slides = [])"
proof (intro conjI impI ballI)
  fix i
  assume main: "\<forall>j\<in>set valid_slides.
             1 \<le> j \<and> j \<le> int (length sl)
             \<and> (is_complex_slide (sl ! nat (j - 1))
                 \<or> (\<forall>sh\<in>set (sl ! nat (j - 1)). \<not> isl (shape_type sh)))"
    and i: "i \<in> set valid_slides" and nc: "\<not> is_complex_slide (sl ! nat (i - 1))"
  have cat: "category_at sl j \<noteq> None" if "j \<in> set valid_slides" for j
  proof -
    from main that have r: "1 \<le> j" "j \<le> int (length sl)"
      and d: "is_complex_slide (sl ! nat (j - 1))
              \<or> (\<forall>sh\<in>set (sl ! nat (j - 1)). \<not> isl (shape_type sh))"
      by auto
    have c: "category_at sl j = classify_slide (sl ! nat (j - 1))"
      using r by (simp add: category_at_def index_ok_valid slide_of_valid)
    show ?thesis
    proof (cases "is_complex_slide (sl ! nat (j - 1))")
      case True
      then show ?thesis by (simp add: c classify_slide_complex)
    next
      case False
      with d have "types_readable (sl ! nat (j - 1))"
        by (simp add: types_readable_def list_all_iff)
      then show ?thesis using False by (simp add: c classify_slide_readable)
    qed
  qed
  then have ok: "list_all (\<lambda>i. category_at sl i \<noteq> None) valid_slides"
    by (simp add: list_all_iff)
  have eq: "table_slides = filter (\<lambda>i. category_at sl i = Some CatTable) valid_slides"
    "complex_slides = filter (\<lambda>i. category_at sl i = Some CatComplex) valid_slides"
    "simple_slides = filter (\<lambda>i. category_at sl i = Some CatSimple) valid_slides"
    using assms by (simp_all add: separate_slides_main_path [OF ok])
  from main i have r: "1 \<le> i" "i \<le> int (length sl)"
    and "is_complex_slide (sl ! nat (i - 1))
         \<or> (\<forall>sh\<in>set (sl ! nat (i - 1)). \<not> isl (shape_type sh))"
    by auto
  with nc have rd: "types_readable (sl ! nat (i - 1))"
    by (simp add: types_readable_def list_all_iff)
  have c: "category_at sl i =
      Some (if (\<exists>sh\<in>set (sl ! nat (i - 1)). shape_type sh = Inr MSO_TABLE)
               \<and> (\<exists>sh\<in>set (sl ! nat (i - 1)).
                     shape_type sh = Inr MSO_TEXT_BOX
                     \<and> (case text_attr sh of None \<Rightarrow> False | Some t \<Rightarrow> strip t \<noteq> []))
            then CatComplex
            else if (\<exists>sh\<in>set (sl ! nat (i - 1)). shape_type sh = Inr MSO_TABLE) then CatTable
            else CatSimple)"
    using r classify_slide_readable [OF nc rd]
    unfolding nonempty_text_unfold
    by (simp add: category_at_def index_ok_valid slide_of_valid)
  {
    assume "(\<exists>sh\<in>set (sl ! nat (i - 1)). shape_type sh = Inr MSO_TABLE)
              \<and> (\<exists>sh\<in>set (sl ! nat (i - 1)).
                    shape_type sh = Inr MSO_TEXT_BOX
                    \<and> (case text_attr sh of None \<Rightarrow> False | Some t \<Rightarrow> strip t \<noteq> []))"
    then have "category_at sl i = Some CatComplex" using c by simp
    then show "i \<in> set complex_slides" "i \<notin> set table_slides" "i \<notin> set simple_slides"
      unfolding eq using i by simp_all
  }
  {
    assume "(\<exists>sh\<in>set (sl ! nat (i - 1)). shape_type sh = Inr MSO_TABLE)
              \<and> \<not> (\<exists>sh\<in>set (sl ! nat (i - 1)).
                    shape_type sh = Inr MSO_TEXT_BOX
                    \<and> (case text_attr sh of None \<Rightarrow> False | Some t \<Rightarrow> strip t \<noteq> []))"
    then have "category_at sl i = Some CatTable" using c by simp
    then show "i \<in> set table_slides" "i \<notin> set complex_slides" "i \<notin> set simple_slides"
      unfolding eq using i by simp_all
  }
  {
    assume "\<not> (\<exists>sh\<in>set (sl ! nat (i - 1)). shape_type sh = Inr MSO_TABLE)"
    then have "category_at sl i = Some CatSimple" using c by simp
    then show "i \<in> set simple_slides" "i \<notin> set table_slides" "i \<notin> set complex_slides"
      unfolding eq using i by simp_all
  }
next
  assume "\<exists>j\<in>set valid_slides.
              int (length sl) < j
              \<or> (1 \<le> j \<and> j \<le> int (length sl) \<and> \<not> is_complex_slide (sl ! nat (j - 1))
                  \<and> (\<exists>sh\<in>set (sl ! nat (j - 1)). isl (shape_type sh)))"
  then obtain j where j: "j \<in> set valid_slides"
    and d: "int (length sl) < j
            \<or> (1 \<le> j \<and> j \<le> int (length sl) \<and> \<not> is_complex_slide (sl ! nat (j - 1))
                \<and> (\<exists>sh\<in>set (sl ! nat (j - 1)). isl (shape_type sh)))"
    by blast
  have "category_at sl j = None"
  proof (cases "int (length sl) < j")
    case True
    then show ?thesis by (simp add: category_at_def index_beyond_not_ok)
  next
    case False
    with d have r: "1 \<le> j" "j \<le> int (length sl)"
      and nc: "\<not> is_complex_slide (sl ! nat (j - 1))"
      and u: "\<exists>sh\<in>set (sl ! nat (j - 1)). isl (shape_type sh)"
      by auto
    from u have "\<not> types_readable (sl ! nat (j - 1))"
      by (simp add: types_readable_def list_all_iff)
    then show ?thesis
      using r nc by (simp add: category_at_def index_ok_valid slide_of_valid classify_slide_unreadable)
  qed
  with j have nok: "\<not> list_all (\<lambda>i. category_at sl i \<noteq> None) valid_slides"
    by (auto simp: list_all_iff)
  show "complex_slides = []"
  proof (cases "list_all (\<lambda>i. table_at sl i \<noteq> None) valid_slides")
    case True
    then show ?thesis using assms by (simp add: separate_slides_fallback [OF nok])
  next
    case False
    then show ?thesis using assms by (simp add: separate_slides_fallback_raises [OF nok])
  qed
qed

lemma ex_step_b_run:
  "separate_slides_by_complexity
     (Inr [[ex_text_box ''Hello''], [ex_text_box ''Q1'', ex_table [[''a'']]],
           [ex_text_box ''  '', ex_table [[''b'']]]])
     [1, 2, 3] = ([3], [2], [1])"
  by code_simp

lemma ex_step_b_not_complex:
  "\<not> is_complex_slide [ex_text_box ''Hello'']"
  "\<not> is_complex_slide [ex_text_box ''Q1'', ex_table [[''a'']]]"
  "\<not> is_complex_slide [ex_text_box ''  '', ex_table [[''b'']]]"
  by code_simp+

lemma ex_step_b_strip: "strip ''Q1'' \<noteq> []" "strip ''  '' = []"
  by code_simp+

theorem step_b_classification_amended_witness:
  "separate_slides_by_complexity
     (Inr [[ex_text_box ''Hello''], [ex_text_box ''Q1'', ex_table [[''a'']]],
           [ex_text_box ''  '', ex_table [[''b'']]]])
     [1, 2, 3] = ([3], [2], [1])
   \<and> 2 \<in> set [2 :: int] \<and> 2 \<notin> set [3 :: int] \<and> 2 \<notin> set [1 :: int]
   \<and> 3 \<in> set [3 :: int] \<and> 3 \<notin> set [2 :: int] \<and> 3 \<notin> set [1 :: int]"
proof -
  let ?sl = "[[ex_text_box ''Hello''], [ex_text_box ''Q1'', ex_table [[''a'']]],
              [ex_text_box ''  '', ex_table [[''b'']]]]"
  have main: "\<forall>j\<in>set [1, 2, 3].
             1 \<le> j \<and> j \<le> int (length ?sl)
             \<and> (is_complex_slide (?sl ! nat (j - 1))
                 \<or> (\<forall>sh\<in>set (?sl ! nat (j - 1)). \<not> isl (shape_type sh)))"
    by (simp add: ex_text_box_def ex_table_def)
  have nc: "\<not> is_complex_slide (?sl ! nat (2 - 1))" "\<not> is_complex_slide (?sl ! nat (3 - 1))"
    using ex_step_b_not_complex by simp_all
  have h2: "(\<exists>sh\<in>set (?sl ! nat (2 - 1)). shape_type sh = Inr MSO_TABLE)
              \<and> (\<exists>sh\<in>set (?sl ! nat (2 - 1)).
                    shape_type sh = Inr MSO_TEXT_BOX
                    \<and> (case text_attr sh of None \<Rightarrow> False | Some t \<Rightarrow> strip t \<noteq> []))"
    using ex_step_b_strip(1)
    by (simp add: ex_text_box_def ex_table_def MSO_TABLE_def MSO_TEXT_BOX_def)
  have h3: "(\<exists>sh\<in>set (?sl ! nat (3 - 1)). shape_type sh = Inr MSO_TABLE)
              \<and> \<not> (\<exists>sh\<in>set (?sl ! nat (3 - 1)).
                    shape_type sh = Inr MSO_TEXT_BOX
                    \<and> (case text_attr sh of None \<Rightarrow> False | Some t \<Rightarrow> strip t \<noteq> []))"
    using ex_step_b_strip(2)
    by (simp add: ex_text_box_def ex_table_def MSO_TABLE_def MSO_TEXT_BOX_def)
  note t = step_b_classification_amended
    [OF ex_step_b_run, THEN conjunct1, THEN mp, OF main, THEN bspec, THEN mp]
  have "2 \<in> set [2 :: int] \<and> 2 \<notin> set [3 :: int] \<and> 2 \<notin> set [1 :: int]"
    using t [OF _ nc(1), THEN conjunct1, THEN mp, OF _ h2] by simp
  moreover have "3 \<in> set [3 :: int] \<and> 3 \<notin> set [2 :: int] \<and> 3 \<notin> set [1 :: int]"
    using t [OF _ nc(2), THEN conjunct2, THEN conjunct1, THEN mp, OF _ h3] by simp
  ultimately show ?thesis using ex_step_b_run by simp
qed

text \<open>
  Claim C3 as stated fails. In a presentation of two slides, the first with a text box
  "Q1" and a table, the second with a table and then a shape whose type cannot be read,
  the complexity test finds neither slide complex; the loop of the classifier raises at the
  second slide, and the fallback, which stops at the table of each slide, puts both slides
  in the table list: the first slide, with a table and a text box with text, is assigned
  Table.
\<close>

theorem step_b_classification_counterexample:
  "\<not> is_complex_slide [ex_text_box ''Q1'', ex_table [[''a'']]]
   \<and> separate_slides_by_complexity
       (Inr [[ex_text_box ''Q1'', ex_table [[''a'']]], [ex_table [[''b'']], ex_untyped]])
       [1, 2] = ([1, 2], [], [])"
  by code_simp

section \<open>The filter and the text of tables\<close>

lemma filter_slide_text_ignores:
  "filter_slide_text (map (\<lambda>sh. sh\<lparr>table := cells sh, shapes := members sh\<rparr>) s) acc
     = filter_slide_text s acc"
  by (induction s arbitrary: acc) (auto split: option.splits)

lemma filter_loop_ignores:
  "filter_loop i (map (map (\<lambda>sh. sh\<lparr>table := cells sh, shapes := members sh\<rparr>)) sl) acc
     = filter_loop i sl acc"
proof (induction sl arbitrary: i acc)
  case Nil
  then show ?case by (cases acc) simp
next
  case (Cons s sl)
  then show ?case by (cases acc) (simp add: filter_slide_text_ignores)
qed

text \<open>
  Claim C10. The filter reads the text attribute of the shapes and nothing else: putting
  any cells in the tables of the shapes, and any members in their groups, leaves its
  result as it is. So a slide whose text attributes hold no skip pattern is kept as valid,
  whatever its table cells hold.
\<close>

theorem filter_ignores_table_cells:
  "filter_useless_slides (Inr (map (map (\<lambda>sh. sh\<lparr>table := cells sh, shapes := members sh\<rparr>)) sl))
     = filter_useless_slides (Inr sl)
   \<and> (1 \<le> i \<and> i \<le> int (length sl)
        \<and> \<not> (\<exists>p\<in>set skip_patterns. sublist p (folded_slide_text (sl ! nat (i - 1))))
      \<longrightarrow> (\<exists>valid removed.
             filter_useless_slides
               (Inr (map (map (\<lambda>sh. sh\<lparr>table := cells sh, shapes := members sh\<rparr>)) sl))
               = Inr (valid, removed)
             \<and> i \<in> set valid \<and> i \<notin> set removed))"
proof -
  have inv: "filter_useless_slides
               (Inr (map (map (\<lambda>sh. sh\<lparr>table := cells sh, shapes := members sh\<rparr>)) sl))
             = filter_useless_slides (Inr sl)"
    by (simp add: filter_useless_slides_def filter_useless_slides_try_def filter_loop_ignores)
  have "\<exists>valid removed. filter_useless_slides (Inr sl) = Inr (valid, removed)
          \<and> i \<in> set valid \<and> i \<notin> set removed"
    if "1 \<le> i" "i \<le> int (length sl)"
      "\<not> (\<exists>p\<in>set skip_patterns. sublist p (folded_slide_text (sl ! nat (i - 1))))"
  proof -
    have "i \<in> set (map fst (filter (\<lambda>(j, s). \<not> (\<exists>p\<in>set skip_patterns. sublist p (folded_slide_text s)))
                               (py_enumerate 1 sl)))"
      unfolding in_map_fst_filter_py_enumerate using that by simp
    moreover have "i \<notin> set (map fst (filter (\<lambda>(j, s). \<exists>p\<in>set skip_patterns. sublist p (folded_slide_text s))
                               (py_enumerate 1 sl)))"
      unfolding in_map_fst_filter_py_enumerate using that by simp
    ultimately show ?thesis
      unfolding filter_useless_slides_Inr by blast
  qed
  with inv show ?thesis by simp
qed

lemma ex_folded_table_slide:
  "folded_slide_text [ex_text_box ''Q1 Results'', ex_table []] = '' q1 results''"
  by code_simp

theorem filter_ignores_table_cells_witness:
  "\<exists>valid removed.
     filter_useless_slides
       (Inr [[ex_text_box ''Q1 Results'', ex_table [[''Thank you'', ''Questions'']]]])
       = Inr (valid, removed)
     \<and> 1 \<in> set valid \<and> 1 \<notin> set removed"
proof -
  let ?sl = "[[ex_text_box ''Q1 Results'', ex_table []]]"
  let ?cells = "\<lambda>sh. if shape_type sh = Inr 19 then Some [[''Thank you'', ''Questions'']] else table sh"
  have m: "\<not> (\<exists>p\<in>set skip_patterns. sublist p (folded_slide_text (?sl ! nat (1 - 1))))"
    by (simp add: ex_folded_table_slide skip_patterns_def str_in_sublist [symmetric])
  have u: "map (map (\<lambda>sh. sh\<lparr>table := ?cells sh, shapes := shapes sh\<rparr>)) ?sl
             = [[ex_text_box ''Q1 Results'', ex_table [[''Thank you'', ''Questions'']]]]"
    by (simp add: ex_text_box_def ex_table_def)
  have r: "1 \<le> (1 :: int) \<and> 1 \<le> int (length ?sl)" by simp
  have "\<exists>valid removed.
          filter_useless_slides
            (Inr (map (map (\<lambda>sh. sh\<lparr>table := ?cells sh, shapes := shapes sh\<rparr>)) ?sl))
            = Inr (valid, removed)
          \<and> 1 \<in> set valid \<and> 1 \<notin> set removed"
    using filter_ignores_table_cells [where cells = ?cells and members = shapes and sl = ?sl and i = 1]
      m r by blast
  then show ?thesis unfolding u .
qed

section \<open>Properties of the record titles\<close>

lemma title_loop_find:
  "title_loop ls =
     map_option (\<lambda>line. take 80 (strip (re_sub_class ''#*-'' line)))
       (List.find (\<lambda>line. line \<noteq> [] \<and> \<not> startswith line ''!'' \<and> length line < 100
                           \<and> strip (re_sub_class ''#*-'' line) \<noteq> [])
          (map strip ls))"
  by (induction ls) (simp_all add: Let_def)

text \<open>
  Claim C8, as the code has it. The title is taken from the first line that, stripped of
  surrounding whitespace, is not empty, does not start with an exclamation mark, is shorter
  than 100 characters and keeps a character when every \<open>#\<close>, \<open>*\<close> and \<open>-\<close> is removed
  and the rest is stripped again: the title is what is kept, cut to 80 characters. Without
  such a line the title is the content with every \<open>#\<close>, \<open>*\<close>, \<open>-\<close> and \<open>!\<close> removed
  and stripped, when that has at most 50 characters, and else its first 50 characters
  followed by three dots.
\<close>

theorem extract_title_amended:
  "extract_title_from_section section_text =
     (case List.find (\<lambda>line. line \<noteq> [] \<and> \<not> startswith line ''!'' \<and> length line < 100
                               \<and> strip (re_sub_class ''#*-'' line) \<noteq> [])
             (map strip (split section_text NL)) of
        Some line \<Rightarrow> take 80 (strip (re_sub_class ''#*-'' line))
      | None \<Rightarrow>
          (let clean_text = strip (re_sub_class ''#*-!'' section_text)
           in if length clean_text > 50 then take 50 clean_text @ ''...'' else clean_text))"
  unfolding extract_title_from_section_def title_loop_find
  by (simp split: option.splits)

lemma ex_title_rhs:
  "(case List.find (\<lambda>line. line \<noteq> [] \<and> \<not> startswith line ''!'' \<and> length line < 100
                               \<and> strip (re_sub_class ''#*-'' line) \<noteq> [])
             (map strip (split (''![chart](a.png)'' @ NL @ ''---'' @ NL @ ''## Q1 Results'') NL)) of
        Some line \<Rightarrow> take 80 (strip (re_sub_class ''#*-'' line))
      | None \<Rightarrow>
          (let clean_text = strip (re_sub_class ''#*-!'' (''![chart](a.png)'' @ NL @ ''---'' @ NL @ ''## Q1 Results''))
           in if length clean_text > 50 then take 50 clean_text @ ''...'' else clean_text))
   = ''Q1 Results''"
  by code_simp

theorem extract_title_amended_witness:
  "extract_title_from_section (''![chart](a.png)'' @ NL @ ''---'' @ NL @ ''## Q1 Results'') = ''Q1 Results''"
  by (rule trans [OF extract_title_amended ex_title_rhs])

text \<open>
  Claim C8 as stated fails. A content of one line of 100 characters has no line shorter
  than 100: the code returns its first 50 characters followed by three dots, not the
  first 50 characters. And of the content whose first line is \<open>!abc\<close> and whose second
  line is \<open>Title\<close> the code gives \<open>Title\<close>, not the first line.
\<close>

theorem extract_title_counterexample:
  "extract_title_from_section (replicate 100 (CHR ''a'')) = replicate 50 (CHR ''a'') @ ''...''
   \<and> claimed_title (replicate 100 (CHR ''a'')) = replicate 50 (CHR ''a'')
   \<and> extract_title_from_section (replicate 100 (CHR ''a'')) \<noteq> claimed_title (replicate 100 (CHR ''a''))
   \<and> extract_title_from_section (''!abc'' @ NL @ ''Title'') = ''Title''
   \<and> claimed_title (''!abc'' @ NL @ ''Title'') = ''!abc''"
  by code_simp

section \<open>Properties of the extraction router\<close>

lemma dict_set_new: "k \<notin> fst ` set d \<Longrightarrow> dict_set d k v = d @ [(k, v)]"
  by (induction d) auto

lemma process_complex_loop_ok:
  "list_all (\<lambda>j. index_ok sl j \<and> types_readable (slide_of sl j)) vs \<Longrightarrow>
   distinct (map fst d @ vs) \<Longrightarrow>
   process_complex_loop sv sl source_file vs d =
     Inr (d @ map (\<lambda>j. (j, ''## '' @ source_file @ '':slide-'' @ str_int j @ NL @ NL
                          @ convert_slide_to_image_and_process sv (slide_of sl j) j source_file)) vs)"
proof (induction vs arbitrary: d)
  case Nil
  then show ?case by simp
next
  case (Cons i vs)
  let ?v = "''## '' @ source_file @ '':slide-'' @ str_int i @ NL @ NL
            @ convert_slide_to_image_and_process sv (slide_of sl i) i source_file"
  from Cons.prems have ok: "slides_getitem sl (i - 1) = Inr (slide_of sl i)"
    and rd: "types_readable (slide_of sl i)"
    and rest: "list_all (\<lambda>j. index_ok sl j \<and> types_readable (slide_of sl j)) vs"
    by (simp_all add: slides_getitem_ok)
  from Cons.prems have new: "i \<notin> fst ` set d" by auto
  from Cons.prems have dist: "distinct (map fst (d @ [(i, ?v)]) @ vs)" by auto
  have step: "process_complex_loop sv sl source_file (i # vs) d
              = process_complex_loop sv sl source_file vs (dict_set d i ?v)"
    by (simp add: ok read_shape_types_readable [OF rd] Let_def)
  show ?case
    unfolding step dict_set_new [OF new] Cons.IH [OF rest dist] by simp
qed

lemma process_complex_loop_raises:
  "\<not> list_all (\<lambda>j. index_ok sl j \<and> types_readable (slide_of sl j)) vs \<Longrightarrow>
   \<exists>e. process_complex_loop sv sl source_file vs d = Inl e"
proof (induction vs arbitrary: d)
  case Nil
  then show ?case by simp
next
  case (Cons i vs)
  show ?case
  proof (cases "index_ok sl i")
    case False
    then show ?thesis by (simp add: slides_getitem_not_ok)
  next
    case True
    note ok = slides_getitem_ok [OF True]
    show ?thesis
    proof (cases "types_readable (slide_of sl i)")
      case False
      then obtain e where "read_shape_types (slide_of sl i) = Inl e"
        using read_shape_types_unreadable by blast
      then show ?thesis by (simp add: ok)
    next
      case rd: True
      with True Cons.prems
      have "\<not> list_all (\<lambda>j. index_ok sl j \<and> types_readable (slide_of sl j)) vs" by simp
      from Cons.IH [OF this] show ?thesis
        by (simp add: ok read_shape_types_readable [OF rd] Let_def)
    qed
  qed
qed

lemma process_table_loop_ok:
  "list_all (index_ok sl) vs \<Longrightarrow> distinct (map fst d @ vs) \<Longrightarrow>
   process_table_loop sv sl source_file vs d =
     Inr (d @ map (\<lambda>j. (j, \<lparr>slide_number = j,
                             description = convert_slide_to_image_and_process sv (slide_of sl j) j source_file,
                             extracted_text = extract_text_from_slide (slide_of sl j)\<rparr>)) vs)"
proof (induction vs arbitrary: d)
  case Nil
  then show ?case by simp
next
  case (Cons i vs)
  let ?v = "\<lparr>slide_number = i,
             description = convert_slide_to_image_and_process sv (slide_of sl i) i source_file,
             extracted_text = extract_text_from_slide (slide_of sl i)\<rparr>"
  from Cons.prems have ok: "slides_getitem sl (i - 1) = Inr (slide_of sl i)"
    and rest: "list_all (index_ok sl) vs"
    by (simp_all add: slides_getitem_ok)
  from Cons.prems have new: "i \<notin> fst ` set d" by auto
  from Cons.prems have dist: "distinct (map fst (d @ [(i, ?v)]) @ vs)" by auto
  have step: "process_table_loop sv sl source_file (i # vs) d
              = process_table_loop sv sl source_file vs (dict_set d i ?v)"
    by (simp add: ok Let_def)
  show ?case
    unfolding step dict_set_new [OF new] Cons.IH [OF rest dist] by simp
qed

lemma process_complex_slides_ok:
  "list_all (\<lambda>j. index_ok sl j \<and> types_readable (slide_of sl j)) vs \<Longrightarrow> distinct vs \<Longrightarrow>
   process_complex_slides_with_gemini sv (Inr sl) source_file vs =
     map (\<lambda>j. (j, ''## '' @ source_file @ '':slide-'' @ str_int j @ NL @ NL
                   @ convert_slide_to_image_and_process sv (slide_of sl j) j source_file)) vs"
  by (simp add: process_complex_slides_with_gemini_def process_complex_loop_ok)

lemma process_complex_slides_raises:
  assumes "\<not> list_all (\<lambda>j. index_ok sl j \<and> types_readable (slide_of sl j)) vs"
  shows "process_complex_slides_with_gemini sv (Inr sl) source_file vs = []"
proof -
  obtain e where "process_complex_loop sv sl source_file vs [] = Inl e"
    using process_complex_loop_raises [OF assms] by blast
  then show ?thesis by (simp add: process_complex_slides_with_gemini_def)
qed

lemma process_table_slides_ok:
  "list_all (index_ok sl) vs \<Longrightarrow> distinct vs \<Longrightarrow>
   process_table_slides sv (Inr sl) source_file vs =
     map (\<lambda>j. (j, \<lparr>slide_number = j,
                     description = convert_slide_to_image_and_process sv (slide_of sl j) j source_file,
                     extracted_text = extract_text_from_slide (slide_of sl j)\<rparr>)) vs"
  by (simp add: process_table_slides_def process_table_loop_ok)

text \<open>
  Claim C9, as the code has it. When the directory of the images is there and the exporter
  returns without a usable image (None, an empty path, or a path that does not exist), the
  image-based strategy returns, for a slide whose extracted text is not blank, that text
  between the line "**Slide k Content (text-only fallback):**" and the note that image
  processing failed, and for a slide without text the placeholder "[Slide k: Image
  processing failed and no text content available]", k being the index of the slide. When
  the directory cannot be made or the exporter raises, it returns "[Error processing slide
  k: ...]" with the message of the exception, whether the slide has text or not. In every
  case the strategy returns a string: for distinct indices of slides of a presentation that
  parses, the table strategy gives every slide its entry, and so does the complex strategy
  when the type of every shape of the listed slides can be read; when the read of the type
  of a shape of a listed slide raises, the complex strategy returns no entry at all.
\<close>

theorem rendering_failure_amended:
  "(mkdir_slide_images sv = None
      \<and> export_slide_as_image sv k = Inr image_path
      \<and> (image_path = None \<or> image_path = Some [] \<or> (\<exists>p. image_path = Some p \<and> \<not> path_exists sv p))
    \<longrightarrow> (strip (extract_text_from_slide s) \<noteq> []
          \<longrightarrow> convert_slide_to_image_and_process sv s k source_file
              = ''**Slide '' @ str_int k @ '' Content (text-only fallback):**'' @ NL
                @ extract_text_from_slide s @ NL @ NL
                @ ''*Note: Image processing failed, using text extraction only*'')
        \<and> (strip (extract_text_from_slide s) = []
          \<longrightarrow> convert_slide_to_image_and_process sv s k source_file
              = ''[Slide '' @ str_int k @ '': Image processing failed and no text content available]''))
   \<and> (mkdir_slide_images sv = Some e
        \<or> (mkdir_slide_images sv = None \<and> export_slide_as_image sv k = Inl e)
    \<longrightarrow> convert_slide_to_image_and_process sv s k source_file
          = ''[Error processing slide '' @ str_int k @ '': '' @ exn_msg e @ '']'')
   \<and> ((\<forall>j\<in>set idxs. 1 \<le> j \<and> j \<le> int (length sl)) \<and> distinct idxs
    \<longrightarrow> process_table_slides sv (Inr sl) source_file idxs
          = map (\<lambda>j. (j, \<lparr>slide_number = j,
                           description = convert_slide_to_image_and_process sv (sl ! nat (j - 1)) j source_file,
                           extracted_text = extract_text_from_slide (sl ! nat (j - 1))\<rparr>)) idxs
        \<and> ((\<forall>j\<in>set idxs. \<forall>sh\<in>set (sl ! nat (j - 1)). \<not> isl (shape_type sh))
            \<longrightarrow> process_complex_slides_with_gemini sv (Inr sl) source_file idxs
                = map (\<lambda>j. (j, ''## '' @ source_file @ '':slide-'' @ str_int j @ NL @ NL
                                @ convert_slide_to_image_and_process sv (sl ! nat (j - 1)) j source_file)) idxs)
        \<and> ((\<exists>j\<in>set idxs. \<exists>sh\<in>set (sl ! nat (j - 1)). isl (shape_type sh))
            \<longrightarrow> process_complex_slides_with_gemini sv (Inr sl) source_file idxs = []))"
proof (intro conjI impI)
  assume a: "mkdir_slide_images sv = None
      \<and> export_slide_as_image sv k = Inr image_path
      \<and> (image_path = None \<or> image_path = Some [] \<or> (\<exists>p. image_path = Some p \<and> \<not> path_exists sv p))"
  then have no_image: "\<not> (case image_path of None \<Rightarrow> False | Some p \<Rightarrow> p \<noteq> [] \<and> path_exists sv p)"
    by auto
  {
    assume "strip (extract_text_from_slide s) \<noteq> []"
    then show "convert_slide_to_image_and_process sv s k source_file
              = ''**Slide '' @ str_int k @ '' Content (text-only fallback):**'' @ NL
                @ extract_text_from_slide s @ NL @ NL
                @ ''*Note: Image processing failed, using text extraction only*''"
      using a no_image by (simp add: convert_slide_to_image_and_process_def Let_def)
  }
  {
    assume "strip (extract_text_from_slide s) = []"
    then show "convert_slide_to_image_and_process sv s k source_file
              = ''[Slide '' @ str_int k @ '': Image processing failed and no text content available]''"
      using a no_image by (simp add: convert_slide_to_image_and_process_def Let_def)
  }
next
  assume "mkdir_slide_images sv = Some e
        \<or> (mkdir_slide_images sv = None \<and> export_slide_as_image sv k = Inl e)"
  then show "convert_slide_to_image_and_process sv s k source_file
          = ''[Error processing slide '' @ str_int k @ '': '' @ exn_msg e @ '']''"
    by (auto simp: convert_slide_to_image_and_process_def Let_def)
next
  assume b: "(\<forall>j\<in>set idxs. 1 \<le> j \<and> j \<le> int (length sl)) \<and> distinct idxs"
  then have ok: "list_all (index_ok sl) idxs" and d: "distinct idxs"
    and r: "\<forall>j\<in>set idxs. 1 \<le> j \<and> j \<le> int (length sl)"
    by (simp_all add: list_all_iff index_ok_valid)
  show "process_table_slides sv (Inr sl) source_file idxs
          = map (\<lambda>j. (j, \<lparr>slide_number = j,
                           description = convert_slide_to_image_and_process sv (sl ! nat (j - 1)) j source_file,
                           extracted_text = extract_text_from_slide (sl ! nat (j - 1))\<rparr>)) idxs"
    unfolding process_table_slides_ok [OF ok d] using r by (simp add: slide_of_valid)
  {
    assume "\<forall>j\<in>set idxs. \<forall>sh\<in>set (sl ! nat (j - 1)). \<not> isl (shape_type sh)"
    with r have rd: "list_all (\<lambda>j. index_ok sl j \<and> types_readable (slide_of sl j)) idxs"
      by (simp add: list_all_iff index_ok_valid slide_of_valid types_readable_def)
    show "process_complex_slides_with_gemini sv (Inr sl) source_file idxs
          = map (\<lambda>j. (j, ''## '' @ source_file @ '':slide-'' @ str_int j @ NL @ NL
                          @ convert_slide_to_image_and_process sv (sl ! nat (j - 1)) j source_file)) idxs"
      unfolding process_complex_slides_ok [OF rd d] using r by (simp add: slide_of_valid)
  }
  {
    assume "\<exists>j\<in>set idxs. \<exists>sh\<in>set (sl ! nat (j - 1)). isl (shape_type sh)"
    then obtain j where j: "j \<in> set idxs" and u: "\<exists>sh\<in>set (sl ! nat (j - 1)). isl (shape_type sh)"
      by blast
    from r j have "slide_of sl j = sl ! nat (j - 1)" by (simp add: slide_of_valid)
    with u have "\<not> types_readable (slide_of sl j)"
      by (simp add: types_readable_def list_all_iff)
    with j have "\<not> list_all (\<lambda>j. index_ok sl j \<and> types_readable (slide_of sl j)) idxs"
      by (auto simp: list_all_iff)
    then show "process_complex_slides_with_gemini sv (Inr sl) source_file idxs = []"
      by (rule process_complex_slides_raises)
  }
qed

lemma ex_extract_text:
  "extract_text_from_slide [ex_text_box ''Q1'', ex_table [[''a'', ''b''], ['' '', ''c'']]]
     = ''Q1'' @ NL @ ''a | b'' @ NL @ ''c''"
  "extract_text_from_slide [ex_picture] = []"
  by code_simp+

lemma ex_str_int: "str_int 2 = ''2''" "str_int 1 = ''1''"
  by code_simp+

lemma ex_strip_text: "strip (''Q1'' @ NL @ ''a | b'' @ NL @ ''c'') \<noteq> []" "strip [] = []"
  by code_simp+

theorem rendering_failure_amended_witness:
  "convert_slide_to_image_and_process ex_services
       [ex_text_box ''Q1'', ex_table [[''a'', ''b''], ['' '', ''c'']]] 1 ''deck.pptx''
     = ''**Slide 1 Content (text-only fallback):**'' @ NL @ ''Q1'' @ NL @ ''a | b'' @ NL @ ''c''
       @ NL @ NL @ ''*Note: Image processing failed, using text extraction only*''
   \<and> convert_slide_to_image_and_process ex_services [ex_picture] 2 ''deck.pptx''
     = ''[Slide 2: Image processing failed and no text content available]''
   \<and> convert_slide_to_image_and_process ex_services_no_dir [ex_picture] 2 ''deck.pptx''
     = ''[Error processing slide 2: Permission denied]''
   \<and> map fst (process_table_slides ex_services
         (Inr [[ex_text_box ''Q1'', ex_table [[''a'', ''b''], ['' '', ''c'']]], [ex_picture]])
         ''deck.pptx'' [1, 2]) = [1, 2]
   \<and> map fst (process_complex_slides_with_gemini ex_services
         (Inr [[ex_text_box ''Q1'', ex_table [[''a'', ''b''], ['' '', ''c'']]], [ex_picture]])
         ''deck.pptx'' [1, 2]) = [1, 2]
   \<and> process_complex_slides_with_gemini ex_services
         (Inr [[ex_picture], [ex_untyped]]) ''deck.pptx'' [1, 2] = []"
proof -
  let ?s1 = "[ex_text_box ''Q1'', ex_table [[''a'', ''b''], ['' '', ''c'']]]"
  have a1: "mkdir_slide_images ex_services = None
      \<and> export_slide_as_image ex_services 1 = Inr None
      \<and> (None = None \<or> None = Some [] \<or> (\<exists>p. None = Some p \<and> \<not> path_exists ex_services p))"
    and a2: "mkdir_slide_images ex_services = None
      \<and> export_slide_as_image ex_services 2 = Inr None
      \<and> (None = None \<or> None = Some [] \<or> (\<exists>p. None = Some p \<and> \<not> path_exists ex_services p))"
    by (simp_all add: ex_services_def)
  have a3: "mkdir_slide_images ex_services_no_dir = Some (Exn ''PermissionError'' ''Permission denied'')"
    by (simp add: ex_services_no_dir_def ex_services_def)
  have b: "(\<forall>j\<in>set [1, 2]. 1 \<le> j \<and> j \<le> int (length [?s1, [ex_picture]])) \<and> distinct [1, 2 :: int]"
    by simp
  have b': "(\<forall>j\<in>set [1, 2]. 1 \<le> j \<and> j \<le> int (length [[ex_picture], [ex_untyped]]))
            \<and> distinct [1, 2 :: int]"
    by simp
  have rd: "\<forall>j\<in>set [1, 2]. \<forall>sh\<in>set ([?s1, [ex_picture]] ! nat (j - 1)). \<not> isl (shape_type sh)"
    by (simp add: ex_text_box_def ex_table_def ex_picture_def)
  have ur: "\<exists>j\<in>set [1, 2]. \<exists>sh\<in>set ([[ex_picture], [ex_untyped]] ! nat (j - 1)). isl (shape_type sh)"
    by (simp add: ex_untyped_def)
  have c1: "convert_slide_to_image_and_process ex_services ?s1 1 ''deck.pptx''
     = ''**Slide '' @ str_int 1 @ '' Content (text-only fallback):**'' @ NL
       @ extract_text_from_slide ?s1 @ NL @ NL
       @ ''*Note: Image processing failed, using text extraction only*''"
    using rendering_failure_amended
      [where sv = ex_services and k = 1 and image_path = None and s = ?s1
         and source_file = "''deck.pptx''" and idxs = "[]" and sl = "[]"]
      a1 ex_strip_text(1)
    unfolding ex_extract_text by blast
  have c2: "convert_slide_to_image_and_process ex_services [ex_picture] 2 ''deck.pptx''
     = ''[Slide '' @ str_int 2 @ '': Image processing failed and no text content available]''"
    using rendering_failure_amended
      [where sv = ex_services and k = 2 and image_path = None and s = "[ex_picture]"
         and source_file = "''deck.pptx''" and idxs = "[]" and sl = "[]"]
      a2 ex_strip_text(2)
    unfolding ex_extract_text by blast
  have c3: "convert_slide_to_image_and_process ex_services_no_dir [ex_picture] 2 ''deck.pptx''
     = ''[Error processing slide '' @ str_int 2 @ '': ''
       @ exn_msg (Exn ''PermissionError'' ''Permission denied'') @ '']''"
    using rendering_failure_amended
      [where sv = ex_services_no_dir and k = 2 and s = "[ex_picture]"
         and e = "Exn ''PermissionError'' ''Permission denied''"
         and source_file = "''deck.pptx''" and idxs = "[]" and sl = "[]"]
      a3
    by blast
  have c4: "process_table_slides ex_services (Inr [?s1, [ex_picture]]) ''deck.pptx'' [1, 2]
     = map (\<lambda>j. (j, \<lparr>slide_number = j,
                      description = convert_slide_to_image_and_process ex_services
                                      ([?s1, [ex_picture]] ! nat (j - 1)) j ''deck.pptx'',
                      extracted_text = extract_text_from_slide ([?s1, [ex_picture]] ! nat (j - 1))\<rparr>)) [1, 2]"
    using rendering_failure_amended
      [where sv = ex_services and source_file = "''deck.pptx''" and idxs = "[1, 2]"
         and sl = "[?s1, [ex_picture]]"]
      b by blast
  have c5: "process_complex_slides_with_gemini ex_services (Inr [?s1, [ex_picture]]) ''deck.pptx'' [1, 2]
     = map (\<lambda>j. (j, ''## '' @ ''deck.pptx'' @ '':slide-'' @ str_int j @ NL @ NL
                    @ convert_slide_to_image_and_process ex_services ([?s1, [ex_picture]] ! nat (j - 1)) j ''deck.pptx'')) [1, 2]"
    using rendering_failure_amended
      [where sv = ex_services and source_file = "''deck.pptx''" and idxs = "[1, 2]"
         and sl = "[?s1, [ex_picture]]"]
      b rd by blast
  have c6: "process_complex_slides_with_gemini ex_services
              (Inr [[ex_picture], [ex_untyped]]) ''deck.pptx'' [1, 2] = []"
    using rendering_failure_amended
      [where sv = ex_services and source_file = "''deck.pptx''" and idxs = "[1, 2]"
         and sl = "[[ex_picture], [ex_untyped]]"]
      b' ur by blast
  have "map fst (process_table_slides ex_services (Inr [?s1, [ex_picture]]) ''deck.pptx'' [1, 2]) = [1, 2]"
    unfolding c4 by simp
  moreover
  have "map fst (process_complex_slides_with_gemini ex_services (Inr [?s1, [ex_picture]]) ''deck.pptx'' [1, 2]) = [1, 2]"
    unfolding c5 by simp
  moreover have "convert_slide_to_image_and_process ex_services ?s1 1 ''deck.pptx''
     = ''**Slide 1 Content (text-only fallback):**'' @ NL @ ''Q1'' @ NL @ ''a | b'' @ NL @ ''c''
       @ NL @ NL @ ''*Note: Image processing failed, using text extraction only*''"
    using c1 unfolding ex_extract_text ex_str_int by simp
  moreover have "convert_slide_to_image_and_process ex_services [ex_picture] 2 ''deck.pptx''
     = ''[Slide 2: Image processing failed and no text content available]''"
    using c2 unfolding ex_str_int by simp
  moreover have "convert_slide_to_image_and_process ex_services_no_dir [ex_picture] 2 ''deck.pptx''
     = ''[Error processing slide 2: Permission denied]''"
    using c3 unfolding ex_str_int by simp
  ultimately show ?thesis using c6 by blast
qed

text \<open>
  Claim C9 as stated fails. The slide with the one text box "Q1" has the extracted text
  "Q1". When the directory of the images cannot be made, and when the exporter raises, no
  image is rendered, and the strategy returns "[Error processing slide 1: ...]" with the
  message of the exception: not the text of the slide under the marker of the text-only
  fallback.
\<close>

theorem rendering_failure_counterexample:
  "extract_text_from_slide [ex_text_box ''Q1''] = ''Q1''
   \<and> convert_slide_to_image_and_process ex_services_no_dir [ex_text_box ''Q1''] 1 ''deck.pptx''
       = ''[Error processing slide 1: Permission denied]''
   \<and> convert_slide_to_image_and_process ex_services_exporter_raises [ex_text_box ''Q1''] 1 ''deck.pptx''
       = ''[Error processing slide 1: no renderer]''"
  by code_simp

section \<open>Properties of the result merger\<close>














lemma fallback_shape_loop_eq: "fallback_shape_loop s acc = acc @ slide_texts s"
  by (induction s arbitrary: acc)
     (auto simp: slide_texts_def text_of_def split: option.splits)

lemma fallback_slides_loop_ok:
  "list_all (index_ok sl) vs \<Longrightarrow>
   fallback_slides_loop sl source_file vs acc =
     acc @ map (\<lambda>i. ''## '' @ source_file @ '':slide-'' @ str_int i @ NL @ NL
                     @ join (NL @ NL) (slide_texts (slide_of sl i)))
             (filter (\<lambda>i. slide_texts (slide_of sl i) \<noteq> []) vs)"
proof (induction vs arbitrary: acc)
  case Nil
  then show ?case by simp
next
  case (Cons i vs)
  from Cons.prems have ok: "slides_getitem sl (i - 1) = Inr (slide_of sl i)"
    and rest: "list_all (index_ok sl) vs"
    by (simp_all add: slides_getitem_ok)
  show ?case
  proof (cases "slide_texts (slide_of sl i) = []")
    case True
    have step: "fallback_slides_loop sl source_file (i # vs) acc
                = fallback_slides_loop sl source_file vs acc"
      by (simp add: ok fallback_shape_loop_eq True)
    show ?thesis unfolding step Cons.IH [OF rest] by (simp add: True)
  next
    case False
    have step: "fallback_slides_loop sl source_file (i # vs) acc
                = fallback_slides_loop sl source_file vs
                    (acc @ [''## '' @ source_file @ '':slide-'' @ str_int i @ NL @ NL
                            @ join (NL @ NL) (slide_texts (slide_of sl i))])"
      by (simp add: ok fallback_shape_loop_eq False)
    show ?thesis unfolding step Cons.IH [OF rest] by (simp add: False)
  qed
qed

lemma process_simple_slides_ok:
  "list_all (index_ok sl) vs \<Longrightarrow>
   process_simple_slides_with_text_extraction (Inr sl) source_file vs =
     join (NL @ NL)
       (map (\<lambda>i. ''## '' @ source_file @ '':slide-'' @ str_int i @ NL @ NL
                   @ join (NL @ NL) (slide_texts (slide_of sl i)))
          (filter (\<lambda>i. slide_texts (slide_of sl i) \<noteq> []) vs))"
  by (auto simp: process_simple_slides_with_text_extraction_def
      extract_fallback_text_from_slides_def fallback_slides_loop_ok Let_def)

lemma complex_data_loop_eq:
  "complex_data_loop sv source_file d acc =
     acc @ map (\<lambda>(slide_idx, descr).
                  \<lparr>source = source_file @ '':slide-'' @ str_int slide_idx,
                   title = ''Complex Slide '' @ str_int slide_idx @ '' Analysis'',
                   content = descr,
                   last_updated_date = now sv\<rparr>) d"
  by (induction d arbitrary: acc) auto

lemma table_data_loop_eq:
  "table_data_loop sv source_file d (acc, res) =
     (acc @ map (\<lambda>(slide_idx, info).
                  \<lparr>source = source_file @ '':slide-'' @ str_int slide_idx,
                   title = ''Table Slide '' @ str_int slide_idx @ '' Analysis'',
                   content = description info,
                   last_updated_date = now sv\<rparr>) d,
      res @ map (\<lambda>(slide_idx, info).
                  \<lparr>tr_slide_number = slide_idx,
                   tr_source = source_file @ '':slide-'' @ str_int slide_idx,
                   description_length = length (description info),
                   extracted_text_length = length (extracted_text info)\<rparr>) d)"
  by (induction d arbitrary: acc res) auto

lemma sections_loop_length:
  "length (sections_loop sv source_file i pages acc)
     = length acc + length (filter (\<lambda>page. length (strip page) > 50) pages)"
  by (induction pages arbitrary: i acc) (auto simp: Let_def)

lemma process_csvs_Merged:
  assumes "process_csvs_and_combine_results sv md tables source_file cplx = Merged r"
  shows "enhanced_markdown r = build_enhanced_markdown md tables source_file cplx"
    and "markdown_data r =
           (if md \<noteq> [] then extract_sections_from_markdown sv md source_file else [])
           @ map (\<lambda>(slide_idx, descr).
                  \<lparr>source = source_file @ '':slide-'' @ str_int slide_idx,
                   title = ''Complex Slide '' @ str_int slide_idx @ '' Analysis'',
                   content = descr,
                   last_updated_date = now sv\<rparr>) cplx
           @ map (\<lambda>(slide_idx, info).
                  \<lparr>source = source_file @ '':slide-'' @ str_int slide_idx,
                   title = ''Table Slide '' @ str_int slide_idx @ '' Analysis'',
                   content = description info,
                   last_updated_date = now sv\<rparr>) tables"
proof -
  from assms have w: "write_final_markdown sv = None"
    by (auto simp: process_csvs_and_combine_results_def Let_def split: option.splits)
  from assms show "enhanced_markdown r = build_enhanced_markdown md tables source_file cplx"
    unfolding process_csvs_and_combine_results_def Let_def w
    by (auto split: prod.splits)
  from assms show "markdown_data r =
           (if md \<noteq> [] then extract_sections_from_markdown sv md source_file else [])
           @ map (\<lambda>(slide_idx, descr).
                  \<lparr>source = source_file @ '':slide-'' @ str_int slide_idx,
                   title = ''Complex Slide '' @ str_int slide_idx @ '' Analysis'',
                   content = descr,
                   last_updated_date = now sv\<rparr>) cplx
           @ map (\<lambda>(slide_idx, info).
                  \<lparr>source = source_file @ '':slide-'' @ str_int slide_idx,
                   title = ''Table Slide '' @ str_int slide_idx @ '' Analysis'',
                   content = description info,
                   last_updated_date = now sv\<rparr>) tables"
    unfolding process_csvs_and_combine_results_def Let_def w
    by (auto simp: complex_data_loop_eq table_data_loop_eq split: prod.splits if_splits)
qed

section \<open>Properties of the whole process\<close>

lemma filter_valid_props:
  assumes "filter_useless_slides (Inr sl) = Inr (valid, removed)"
  shows "sorted valid" and "distinct valid" and "\<forall>i\<in>set valid. 1 \<le> i \<and> i \<le> int (length sl)"
proof -
  let ?P = "\<lambda>(j :: int, s). \<not> (\<exists>p\<in>set skip_patterns. sublist p (folded_slide_text s))"
  have v: "valid = map fst (filter ?P (py_enumerate 1 sl))"
    using assms unfolding filter_useless_slides_Inr by simp
  show "sorted valid" unfolding v by (rule sorted_filter [OF sorted_fst_py_enumerate])
  show "distinct valid" unfolding v by (rule distinct_map_filter [OF distinct_fst_py_enumerate])
  show "\<forall>i\<in>set valid. 1 \<le> i \<and> i \<le> int (length sl)"
    unfolding v by (auto simp: in_py_enumerate)
qed

lemma process_file_Merged:
  assumes "process_powerpoint_file sv prs file_name = Inr (Merged r)"
  obtains sl fname valid removed t c s where
    "prs = Inr sl" and "file_name = Inr fname"
    and "filter_useless_slides (Inr sl) = Inr (valid, removed)"
    and "separate_slides_by_complexity (Inr sl) valid = (t, c, s)"
    and "process_csvs_and_combine_results sv
           (process_simple_slides_with_text_extraction (Inr sl) fname s)
           (process_table_slides sv (Inr sl) fname t) fname
           (process_complex_slides_with_gemini sv (Inr sl) fname c) = Merged r"
proof -
  from assms have body: "process_powerpoint_file_body sv prs file_name = Inr (Merged r)"
    by (auto simp: process_powerpoint_file_def split: option.splits sum.splits)
  then obtain fname where fn: "file_name = Inr fname"
    by (cases file_name) (auto simp: process_powerpoint_file_body_def)
  from body fn obtain valid removed where f: "filter_useless_slides prs = Inr (valid, removed)"
    by (auto simp: process_powerpoint_file_body_def split: sum.splits)
  then obtain sl where p: "prs = Inr sl"
    by (cases prs) (auto simp: filter_useless_slides_def filter_useless_slides_try_def)
  obtain t c s where sep: "separate_slides_by_complexity prs valid = (t, c, s)"
    by (cases "separate_slides_by_complexity prs valid") auto
  have "process_csvs_and_combine_results sv
           (process_simple_slides_with_text_extraction prs fname s)
           (process_table_slides sv prs fname t) fname
           (process_complex_slides_with_gemini sv prs fname c) = Merged r"
    using body fn f sep
    by (simp add: process_powerpoint_file_body_def Let_def split: option.splits if_splits)
  then show thesis using that fn f sep unfolding p by blast
qed

lemma map_slide_of:
  assumes "\<forall>i\<in>set xs. 1 \<le> i \<and> i \<le> int (length sl)"
  shows "map (\<lambda>i. g i (slide_of sl i)) xs = map (\<lambda>i. g i (sl ! nat (i - 1))) xs"
  using assms by (simp add: slide_of_valid)

lemma filter_slide_of:
  assumes "\<forall>i\<in>set xs. 1 \<le> i \<and> i \<le> int (length sl)"
  shows "filter (\<lambda>i. P (slide_of sl i)) xs = filter (\<lambda>i. P (sl ! nat (i - 1))) xs"
  using assms by (intro filter_cong) (simp_all add: slide_of_valid)

text \<open>What a run that gives a merged result went through: the lists of the filter and of
  the classifier, and the three inputs of the merge.\<close>

lemma merged_run:
  assumes "process_powerpoint_file sv prs file_name = Inr (Merged r)"
  obtains sl fname valid removed t c s where
    "prs = Inr sl" and "file_name = Inr fname"
    and "filter_useless_slides prs = Inr (valid, removed)"
    and "separate_slides_by_complexity prs valid = (t, c, s)"
    and "\<forall>i\<in>set valid. 1 \<le> i \<and> i \<le> int (length sl)"
    and "sorted s" "distinct s" "sorted c" "distinct c" "sorted t" "distinct t"
    and "set s \<subseteq> set valid" "set c \<subseteq> set valid" "set t \<subseteq> set valid"
    and "process_simple_slides_with_text_extraction prs fname s =
           join (NL @ NL)
             (map (\<lambda>i. ''## '' @ fname @ '':slide-'' @ str_int i @ NL @ NL
                         @ join (NL @ NL) (slide_texts (sl ! nat (i - 1))))
                (filter (\<lambda>i. slide_texts (sl ! nat (i - 1)) \<noteq> []) s))"
    and "process_complex_slides_with_gemini sv prs fname c =
           map (\<lambda>j. (j, ''## '' @ fname @ '':slide-'' @ str_int j @ NL @ NL
                         @ convert_slide_to_image_and_process sv (sl ! nat (j - 1)) j fname))
             (if \<forall>i\<in>set c. \<forall>sh\<in>set (sl ! nat (i - 1)). \<not> isl (shape_type sh) then c else [])"
    and "process_table_slides sv prs fname t =
           map (\<lambda>j. (j, \<lparr>slide_number = j,
                           description = convert_slide_to_image_and_process sv (sl ! nat (j - 1)) j fname,
                           extracted_text = extract_text_from_slide (sl ! nat (j - 1))\<rparr>)) t"
    and "process_csvs_and_combine_results sv
           (process_simple_slides_with_text_extraction prs fname s)
           (process_table_slides sv prs fname t) fname
           (process_complex_slides_with_gemini sv prs fname c) = Merged r"
proof -
  from assms obtain sl fname valid removed t c s where
    p: "prs = Inr sl" and fn: "file_name = Inr fname"
    and f: "filter_useless_slides (Inr sl) = Inr (valid, removed)"
    and sep: "separate_slides_by_complexity (Inr sl) valid = (t, c, s)"
    and m: "process_csvs_and_combine_results sv
           (process_simple_slides_with_text_extraction (Inr sl) fname s)
           (process_table_slides sv (Inr sl) fname t) fname
           (process_complex_slides_with_gemini sv (Inr sl) fname c) = Merged r"
    by (rule process_file_Merged)
  note v = filter_valid_props [OF f]
  from separate_slides_filters [OF sep] obtain P Q R where
    eq: "t = filter P valid" "c = filter Q valid" "s = filter R valid"
    by blast
  have srt: "sorted s" "sorted c" "sorted t"
    unfolding eq using v(1) by (simp_all add: sorted_wrt_filter)
  have dst: "distinct s" "distinct c" "distinct t"
    unfolding eq using v(2) by simp_all
  have sub: "set s \<subseteq> set valid" "set c \<subseteq> set valid" "set t \<subseteq> set valid"
    unfolding eq by auto
  have rng: "\<forall>i\<in>set s. 1 \<le> i \<and> i \<le> int (length sl)"
    "\<forall>i\<in>set c. 1 \<le> i \<and> i \<le> int (length sl)"
    "\<forall>i\<in>set t. 1 \<le> i \<and> i \<le> int (length sl)"
    using v(3) sub by blast+
  have oks: "list_all (index_ok sl) s" "list_all (index_ok sl) c" "list_all (index_ok sl) t"
    using rng by (simp_all add: list_all_iff index_ok_valid)
  have smp: "process_simple_slides_with_text_extraction (Inr sl) fname s =
           join (NL @ NL)
             (map (\<lambda>i. ''## '' @ fname @ '':slide-'' @ str_int i @ NL @ NL
                         @ join (NL @ NL) (slide_texts (sl ! nat (i - 1))))
                (filter (\<lambda>i. slide_texts (sl ! nat (i - 1)) \<noteq> []) s))"
  proof -
    have r': "\<forall>i\<in>set (filter (\<lambda>i. slide_texts (sl ! nat (i - 1)) \<noteq> []) s).
                1 \<le> i \<and> i \<le> int (length sl)"
      using rng(1) by simp
    show ?thesis
      unfolding process_simple_slides_ok [OF oks(1)]
        filter_slide_of [OF rng(1), of "\<lambda>x. slide_texts x \<noteq> []"]
        map_slide_of [OF r', of "\<lambda>i x. ''## '' @ fname @ '':slide-'' @ str_int i @ NL @ NL
                                      @ join (NL @ NL) (slide_texts x)"]
      ..
  qed
  have tbl: "process_table_slides sv (Inr sl) fname t =
           map (\<lambda>j. (j, \<lparr>slide_number = j,
                           description = convert_slide_to_image_and_process sv (sl ! nat (j - 1)) j fname,
                           extracted_text = extract_text_from_slide (sl ! nat (j - 1))\<rparr>)) t"
    unfolding process_table_slides_ok [OF oks(3) dst(3)]
    using rng(3) by (simp add: slide_of_valid)
  have rd_iff: "list_all (\<lambda>j. index_ok sl j \<and> types_readable (slide_of sl j)) c
                \<longleftrightarrow> (\<forall>i\<in>set c. \<forall>sh\<in>set (sl ! nat (i - 1)). \<not> isl (shape_type sh))"
    using rng(2) by (simp add: list_all_iff index_ok_valid slide_of_valid types_readable_def)
  have cpx: "process_complex_slides_with_gemini sv (Inr sl) fname c =
           map (\<lambda>j. (j, ''## '' @ fname @ '':slide-'' @ str_int j @ NL @ NL
                         @ convert_slide_to_image_and_process sv (sl ! nat (j - 1)) j fname))
             (if \<forall>i\<in>set c. \<forall>sh\<in>set (sl ! nat (i - 1)). \<not> isl (shape_type sh) then c else [])"
  proof (cases "list_all (\<lambda>j. index_ok sl j \<and> types_readable (slide_of sl j)) c")
    case True
    have "process_complex_slides_with_gemini sv (Inr sl) fname c =
           map (\<lambda>j. (j, ''## '' @ fname @ '':slide-'' @ str_int j @ NL @ NL
                         @ convert_slide_to_image_and_process sv (sl ! nat (j - 1)) j fname)) c"
      unfolding process_complex_slides_ok [OF True dst(2)]
      using rng(2) by (simp add: slide_of_valid)
    then show ?thesis using True unfolding rd_iff by simp
  next
    case False
    then have n: "\<not> (\<forall>i\<in>set c. \<forall>sh\<in>set (sl ! nat (i - 1)). \<not> isl (shape_type sh))"
      unfolding rd_iff .
    show ?thesis
      unfolding process_complex_slides_raises [OF False] if_not_P [OF n] by simp
  qed
  show thesis
    using that [of sl fname valid removed t c s]
      p fn f sep v(3) srt dst sub m smp cpx tbl
    by simp
qed


lemma ex_run:
  "process_powerpoint_file ex_services (Inr ex_deck) (Inr ''deck.pptx'') = Inr (Merged ex_merged)"
  by code_simp

lemma ex_merge:
  "process_csvs_and_combine_results ex_services ''## deck.pptx:slide-2\<newline>\<newline>Hello''
     ex_tables ''deck.pptx'' ex_descriptions = Merged ex_merged_dicts"
  by code_simp



lemma ex_run_lists:
  "filter_useless_slides (Inr ex_deck) = Inr ([1, 2, 3, 4, 5, 6], [])"
  "separate_slides_by_complexity (Inr ex_deck) [1, 2, 3, 4, 5, 6] = ([1, 6], [3, 5], [2, 4])"
  by code_simp+



lemma extract_sections_empty: "extract_sections_from_markdown sv [] source_file = []"
  by (simp add: extract_sections_from_markdown_def split_def strip_def)

lemma extract_sections_length:
  "length (extract_sections_from_markdown sv md source_file)
     = length (filter (\<lambda>block. length (strip block) > 50) (split md (NL @ NL)))"
  by (simp add: extract_sections_from_markdown_def sections_loop_length)

text \<open>
  Claim C6, as the code has it. In every merged result the flat record list is: a record
  for each block of the text of the simple slides (the text cut at blank lines) whose
  stripped length is over 50 characters; then one record for each entry of the dictionary
  of the complex slides and then one for each entry of the dictionary of the table slides,
  each with the name of the file and the index of its slide as source. So the list has as
  many records as there are such blocks and entries of the two dictionaries. In every
  merged result the process returns, the dictionary of the table slides has an entry for
  every table slide of the classifier, and that of the complex slides has one for every
  complex slide when the type of every shape of these slides can be read, and is empty
  otherwise.
\<close>

theorem records_of_merge_amended:
  "(process_csvs_and_combine_results sv markdown_content processed_tables source_file
        complex_slide_descriptions = Merged m
    \<longrightarrow> markdown_data m =
           extract_sections_from_markdown sv markdown_content source_file
           @ map (\<lambda>(i, d). \<lparr>source = source_file @ '':slide-'' @ str_int i,
                             title = ''Complex Slide '' @ str_int i @ '' Analysis'',
                             content = d,
                             last_updated_date = now sv\<rparr>) complex_slide_descriptions
           @ map (\<lambda>(i, info). \<lparr>source = source_file @ '':slide-'' @ str_int i,
                                title = ''Table Slide '' @ str_int i @ '' Analysis'',
                                content = description info,
                                last_updated_date = now sv\<rparr>) processed_tables
        \<and> length (markdown_data m) =
            length (filter (\<lambda>block. length (strip block) > 50) (split markdown_content (NL @ NL)))
            + length complex_slide_descriptions + length processed_tables)
   \<and> (process_powerpoint_file sv prs file_name = Inr (Merged r)
    \<longrightarrow> (\<exists>sl fname valid removed table_slides complex_slides simple_slides md described.
           prs = Inr sl \<and> file_name = Inr fname
           \<and> filter_useless_slides prs = Inr (valid, removed)
           \<and> separate_slides_by_complexity prs valid = (table_slides, complex_slides, simple_slides)
           \<and> md = join (NL @ NL)
                    (map (\<lambda>i. ''## '' @ fname @ '':slide-'' @ str_int i @ NL @ NL
                                @ join (NL @ NL) (slide_texts (sl ! nat (i - 1))))
                       (filter (\<lambda>i. slide_texts (sl ! nat (i - 1)) \<noteq> []) simple_slides))
           \<and> described =
                 (if \<forall>i\<in>set complex_slides. \<forall>sh\<in>set (sl ! nat (i - 1)). \<not> isl (shape_type sh)
                  then complex_slides else [])
           \<and> markdown_data r =
               extract_sections_from_markdown sv md fname
               @ map (\<lambda>i. \<lparr>source = fname @ '':slide-'' @ str_int i,
                            title = ''Complex Slide '' @ str_int i @ '' Analysis'',
                            content = ''## '' @ fname @ '':slide-'' @ str_int i @ NL @ NL
                                      @ convert_slide_to_image_and_process sv (sl ! nat (i - 1)) i fname,
                            last_updated_date = now sv\<rparr>) described
               @ map (\<lambda>i. \<lparr>source = fname @ '':slide-'' @ str_int i,
                            title = ''Table Slide '' @ str_int i @ '' Analysis'',
                            content = convert_slide_to_image_and_process sv (sl ! nat (i - 1)) i fname,
                            last_updated_date = now sv\<rparr>) table_slides
           \<and> length (markdown_data r) =
               length (filter (\<lambda>block. length (strip block) > 50) (split md (NL @ NL)))
               + length described + length table_slides))"
proof (intro conjI impI)
  assume a: "process_csvs_and_combine_results sv markdown_content processed_tables source_file
        complex_slide_descriptions = Merged m"
  have sec: "(if markdown_content \<noteq> []
              then extract_sections_from_markdown sv markdown_content source_file else [])
             = extract_sections_from_markdown sv markdown_content source_file"
    by (simp add: extract_sections_empty)
  show data: "markdown_data m =
           extract_sections_from_markdown sv markdown_content source_file
           @ map (\<lambda>(i, d). \<lparr>source = source_file @ '':slide-'' @ str_int i,
                             title = ''Complex Slide '' @ str_int i @ '' Analysis'',
                             content = d,
                             last_updated_date = now sv\<rparr>) complex_slide_descriptions
           @ map (\<lambda>(i, info). \<lparr>source = source_file @ '':slide-'' @ str_int i,
                                title = ''Table Slide '' @ str_int i @ '' Analysis'',
                                content = description info,
                                last_updated_date = now sv\<rparr>) processed_tables"
    unfolding process_csvs_Merged(2) [OF a] sec ..
  show "length (markdown_data m) =
            length (filter (\<lambda>block. length (strip block) > 50) (split markdown_content (NL @ NL)))
            + length complex_slide_descriptions + length processed_tables"
    unfolding data by (simp add: extract_sections_length)
next
  assume run: "process_powerpoint_file sv prs file_name = Inr (Merged r)"
  from run obtain sl fname valid removed t c s where
    p: "prs = Inr sl" and fn: "file_name = Inr fname"
    and f: "filter_useless_slides prs = Inr (valid, removed)"
    and sep: "separate_slides_by_complexity prs valid = (t, c, s)"
    and smp: "process_simple_slides_with_text_extraction prs fname s =
           join (NL @ NL)
             (map (\<lambda>i. ''## '' @ fname @ '':slide-'' @ str_int i @ NL @ NL
                         @ join (NL @ NL) (slide_texts (sl ! nat (i - 1))))
                (filter (\<lambda>i. slide_texts (sl ! nat (i - 1)) \<noteq> []) s))"
    and cx: "process_complex_slides_with_gemini sv prs fname c =
           map (\<lambda>j. (j, ''## '' @ fname @ '':slide-'' @ str_int j @ NL @ NL
                         @ convert_slide_to_image_and_process sv (sl ! nat (j - 1)) j fname))
             (if \<forall>i\<in>set c. \<forall>sh\<in>set (sl ! nat (i - 1)). \<not> isl (shape_type sh) then c else [])"
    and tb: "process_table_slides sv prs fname t =
           map (\<lambda>j. (j, \<lparr>slide_number = j,
                           description = convert_slide_to_image_and_process sv (sl ! nat (j - 1)) j fname,
                           extracted_text = extract_text_from_slide (sl ! nat (j - 1))\<rparr>)) t"
    and m: "process_csvs_and_combine_results sv
           (process_simple_slides_with_text_extraction prs fname s)
           (process_table_slides sv prs fname t) fname
           (process_complex_slides_with_gemini sv prs fname c) = Merged r"
    by (rule merged_run)
  define md where "md = join (NL @ NL)
             (map (\<lambda>i. ''## '' @ fname @ '':slide-'' @ str_int i @ NL @ NL
                         @ join (NL @ NL) (slide_texts (sl ! nat (i - 1))))
                (filter (\<lambda>i. slide_texts (sl ! nat (i - 1)) \<noteq> []) s))"
  define described where "described =
     (if \<forall>i\<in>set c. \<forall>sh\<in>set (sl ! nat (i - 1)). \<not> isl (shape_type sh) then c else [])"
  have sec: "(if md \<noteq> [] then extract_sections_from_markdown sv md fname else [])
             = extract_sections_from_markdown sv md fname"
    by (simp add: extract_sections_empty)
  have data: "markdown_data r =
               extract_sections_from_markdown sv md fname
               @ map (\<lambda>i. \<lparr>source = fname @ '':slide-'' @ str_int i,
                            title = ''Complex Slide '' @ str_int i @ '' Analysis'',
                            content = ''## '' @ fname @ '':slide-'' @ str_int i @ NL @ NL
                                      @ convert_slide_to_image_and_process sv (sl ! nat (i - 1)) i fname,
                            last_updated_date = now sv\<rparr>) described
               @ map (\<lambda>i. \<lparr>source = fname @ '':slide-'' @ str_int i,
                            title = ''Table Slide '' @ str_int i @ '' Analysis'',
                            content = convert_slide_to_image_and_process sv (sl ! nat (i - 1)) i fname,
                            last_updated_date = now sv\<rparr>) table_slides"
    if "table_slides = t" for table_slides
    unfolding process_csvs_Merged(2) [OF m] smp md_def [symmetric] sec cx tb
      described_def [symmetric] that
    by (simp add: comp_def)
  have len: "length (markdown_data r) =
               length (filter (\<lambda>block. length (strip block) > 50) (split md (NL @ NL)))
               + length described + length t"
    unfolding data [OF refl] by (simp add: extract_sections_length)
  show "\<exists>sl fname valid removed table_slides complex_slides simple_slides md described.
           prs = Inr sl \<and> file_name = Inr fname
           \<and> filter_useless_slides prs = Inr (valid, removed)
           \<and> separate_slides_by_complexity prs valid = (table_slides, complex_slides, simple_slides)
           \<and> md = join (NL @ NL)
                    (map (\<lambda>i. ''## '' @ fname @ '':slide-'' @ str_int i @ NL @ NL
                                @ join (NL @ NL) (slide_texts (sl ! nat (i - 1))))
                       (filter (\<lambda>i. slide_texts (sl ! nat (i - 1)) \<noteq> []) simple_slides))
           \<and> described =
                 (if \<forall>i\<in>set complex_slides. \<forall>sh\<in>set (sl ! nat (i - 1)). \<not> isl (shape_type sh)
                  then complex_slides else [])
           \<and> markdown_data r =
               extract_sections_from_markdown sv md fname
               @ map (\<lambda>i. \<lparr>source = fname @ '':slide-'' @ str_int i,
                            title = ''Complex Slide '' @ str_int i @ '' Analysis'',
                            content = ''## '' @ fname @ '':slide-'' @ str_int i @ NL @ NL
                                      @ convert_slide_to_image_and_process sv (sl ! nat (i - 1)) i fname,
                            last_updated_date = now sv\<rparr>) described
               @ map (\<lambda>i. \<lparr>source = fname @ '':slide-'' @ str_int i,
                            title = ''Table Slide '' @ str_int i @ '' Analysis'',
                            content = convert_slide_to_image_and_process sv (sl ! nat (i - 1)) i fname,
                            last_updated_date = now sv\<rparr>) table_slides
           \<and> length (markdown_data r) =
               length (filter (\<lambda>block. length (strip block) > 50) (split md (NL @ NL)))
               + length described + length table_slides"
    using p fn f sep md_def described_def data [OF refl] len by blast
qed

lemma ex_blocks:
  "length (filter (\<lambda>block. length (strip block) > 50)
             (split ''## deck.pptx:slide-2\<newline>\<newline>Hello'' (NL @ NL))) = 0"
  "length (filter (\<lambda>block. length (strip block) > 50)
             (split (join (NL @ NL)
                       (map (\<lambda>i. ''## '' @ ''deck.pptx'' @ '':slide-'' @ str_int i @ NL @ NL
                                   @ join (NL @ NL) (slide_texts (ex_deck ! nat (i - 1))))
                          (filter (\<lambda>i. slide_texts (ex_deck ! nat (i - 1)) \<noteq> []) [2, 4])))
                (NL @ NL))) = 1"
  "(if \<forall>i\<in>set [3, 5]. \<forall>sh\<in>set (ex_deck ! nat (i - 1)). \<not> isl (shape_type sh)
    then [3, 5] else []) = [3, 5 :: int]"
  by code_simp+

theorem records_of_merge_amended_witness:
  "length (markdown_data ex_merged_dicts) = 0 + length ex_descriptions + length ex_tables
   \<and> length (markdown_data ex_merged) = 1 + length [3 :: int, 5] + length [1 :: int, 6]"
proof -
  have first: "length (markdown_data ex_merged_dicts) = 0 + length ex_descriptions + length ex_tables"
    using records_of_merge_amended
      [where sv = ex_services and markdown_content = "''## deck.pptx:slide-2\<newline>\<newline>Hello''"
         and processed_tables = ex_tables and source_file = "''deck.pptx''"
         and complex_slide_descriptions = ex_descriptions and m = ex_merged_dicts,
       THEN conjunct1, THEN mp, OF ex_merge, THEN conjunct2]
    unfolding ex_blocks(1) .
  obtain sl fname valid removed t c s md described where
    p: "(Inr ex_deck :: presentation) = Inr sl"
    and fn: "(Inr ''deck.pptx'' :: exn + string) = Inr fname"
    and f: "filter_useless_slides (Inr ex_deck) = Inr (valid, removed)"
    and sep: "separate_slides_by_complexity (Inr ex_deck) valid = (t, c, s)"
    and md: "md = join (NL @ NL)
                    (map (\<lambda>i. ''## '' @ fname @ '':slide-'' @ str_int i @ NL @ NL
                                @ join (NL @ NL) (slide_texts (sl ! nat (i - 1))))
                       (filter (\<lambda>i. slide_texts (sl ! nat (i - 1)) \<noteq> []) s))"
    and ds: "described =
                 (if \<forall>i\<in>set c. \<forall>sh\<in>set (sl ! nat (i - 1)). \<not> isl (shape_type sh) then c else [])"
    and len: "length (markdown_data ex_merged) =
               length (filter (\<lambda>block. length (strip block) > 50) (split md (NL @ NL)))
               + length described + length t"
    using records_of_merge_amended
      [where sv = ex_services and prs = "Inr ex_deck" and file_name = "Inr ''deck.pptx''"
         and r = ex_merged, THEN conjunct2, THEN mp, OF ex_run]
    by blast
  from p have sl: "sl = ex_deck" by simp
  from fn have fname: "fname = ''deck.pptx''" by simp
  from f have valid: "valid = [1, 2, 3, 4, 5, 6]" unfolding ex_run_lists(1) by simp
  from sep have lists: "t = [1, 6]" "c = [3, 5]" "s = [2, 4]"
    unfolding valid ex_run_lists(2) by simp_all
  have "length (markdown_data ex_merged) = 1 + length [3 :: int, 5] + length [1 :: int, 6]"
    using len unfolding md ds sl fname lists ex_blocks .
  with first show ?thesis by (rule conjI)
qed

text \<open>
  Claim C6 as stated fails. A presentation of one slide with one text box that reads
  "Hello" is kept by the filter, classified simple and gives the text
  "## deck.pptx:slide-1", a blank line, "Hello": a processed slide with output that is not
  empty. Neither block of that text is longer than 50 characters, so the record list of
  the merged result is empty.
\<close>

theorem records_count_counterexample:
  "filter_useless_slides (Inr [[ex_text_box ''Hello'']]) = Inr ([1], [])
   \<and> separate_slides_by_complexity (Inr [[ex_text_box ''Hello'']]) [1] = ([], [], [1])
   \<and> process_simple_slides_with_text_extraction (Inr [[ex_text_box ''Hello'']]) ''deck.pptx'' [1]
       = ''## deck.pptx:slide-1\<newline>\<newline>Hello''
   \<and> records_of (process_powerpoint_file ex_services (Inr [[ex_text_box ''Hello'']]) (Inr ''deck.pptx''))
       = []
   \<and> \<not> (length [1 :: int]
           \<le> length (records_of (process_powerpoint_file ex_services
                                    (Inr [[ex_text_box ''Hello'']]) (Inr ''deck.pptx''))))"
  by code_simp









end
